theory Spec2Isabelle
  imports Complex_Main
begin

text \<open>
  A model of the stroke geometry engine of czSignature.js, revision 1.1: the point
  simplifier \<open>#simplifyStroke\<close>, the width modulator \<open>#calculateWidths\<close>, the outline
  path builder \<open>#generateSmoothSvgPathData\<close>, and the operations \<open>undo\<close> and
  \<open>fromData\<close> on the stroke collection. Each loop of the program is a recursive
  function on its loop counter with the variables it updates as arguments. The
  specification's algorithms are defined separately, and the theorems relate the two.
\<close>

section \<open>JavaScript numbers\<close>

text \<open>
  Every number of czSignature.js is an IEEE double. The model keeps the four kinds of
  value that the program's own control flow distinguishes: a finite number, the two
  infinities and NaN. A finite number is a real and finite arithmetic is exact, so
  rounding, overflow to an infinity and the sign of zero are outside the model. The
  operations below follow ECMAScript on the remaining cases: an operation on NaN is NaN,
  a comparison with NaN is false, a non-zero finite number divided by zero is an
  infinity and zero divided by zero is NaN. Where a property of the widths depends on
  rounding or overflow, it is stated of \<open>calculateWidthsA\<close>, the Width Modulator
  over an arbitrary arithmetic.
\<close>

datatype jsnum = Num real | PInf | NInf | NaN

fun jneg :: "jsnum \<Rightarrow> jsnum" where
  "jneg (Num a) = Num (- a)"
| "jneg PInf = NInf"
| "jneg NInf = PInf"
| "jneg NaN = NaN"

fun jadd :: "jsnum \<Rightarrow> jsnum \<Rightarrow> jsnum" where
  "jadd (Num a) (Num b) = Num (a + b)"
| "jadd (Num a) PInf = PInf"
| "jadd (Num a) NInf = NInf"
| "jadd PInf (Num b) = PInf"
| "jadd PInf PInf = PInf"
| "jadd PInf NInf = NaN"
| "jadd NInf (Num b) = NInf"
| "jadd NInf PInf = NaN"
| "jadd NInf NInf = NInf"
| "jadd NaN b = NaN"
| "jadd a NaN = NaN"

definition jsub :: "jsnum \<Rightarrow> jsnum \<Rightarrow> jsnum" where
  "jsub a b = jadd a (jneg b)"

text \<open>The infinity whose sign is that of a non-zero real.\<close>

definition jinf :: "real \<Rightarrow> jsnum" where
  "jinf s = (if 0 < s then PInf else NInf)"

fun jmul :: "jsnum \<Rightarrow> jsnum \<Rightarrow> jsnum" where
  "jmul (Num a) (Num b) = Num (a * b)"
| "jmul (Num a) PInf = (if a = 0 then NaN else jinf a)"
| "jmul (Num a) NInf = (if a = 0 then NaN else jinf (- a))"
| "jmul PInf (Num b) = (if b = 0 then NaN else jinf b)"
| "jmul NInf (Num b) = (if b = 0 then NaN else jinf (- b))"
| "jmul PInf PInf = PInf"
| "jmul PInf NInf = NInf"
| "jmul NInf PInf = NInf"
| "jmul NInf NInf = PInf"
| "jmul NaN b = NaN"
| "jmul a NaN = NaN"

fun jdiv :: "jsnum \<Rightarrow> jsnum \<Rightarrow> jsnum" where
  "jdiv (Num a) (Num b) =
     (if b = 0 then (if a = 0 then NaN else jinf a) else Num (a / b))"
| "jdiv (Num a) PInf = Num 0"
| "jdiv (Num a) NInf = Num 0"
| "jdiv PInf (Num b) = (if 0 \<le> b then PInf else NInf)"
| "jdiv NInf (Num b) = (if 0 \<le> b then NInf else PInf)"
| "jdiv PInf PInf = NaN"
| "jdiv PInf NInf = NaN"
| "jdiv NInf PInf = NaN"
| "jdiv NInf NInf = NaN"
| "jdiv NaN b = NaN"
| "jdiv a NaN = NaN"

text \<open>\<open>jlt a b\<close> is the JavaScript comparison \<open>a < b\<close>, \<open>jgt a b\<close> is \<open>a > b\<close>.\<close>

fun jlt :: "jsnum \<Rightarrow> jsnum \<Rightarrow> bool" where
  "jlt (Num a) (Num b) = (a < b)"
| "jlt (Num a) PInf = True"
| "jlt (Num a) NInf = False"
| "jlt PInf b = False"
| "jlt NInf (Num b) = True"
| "jlt NInf PInf = True"
| "jlt NInf NInf = False"
| "jlt NaN b = False"
| "jlt a NaN = False"

definition jgt :: "jsnum \<Rightarrow> jsnum \<Rightarrow> bool" where
  "jgt a b = jlt b a"

text \<open>\<open>Math.min\<close> and \<open>Math.max\<close> of two arguments: NaN when either is NaN.\<close>

definition jmin :: "jsnum \<Rightarrow> jsnum \<Rightarrow> jsnum" where
  "jmin a b = (if a = NaN \<or> b = NaN then NaN else if jlt b a then b else a)"

definition jmax :: "jsnum \<Rightarrow> jsnum \<Rightarrow> jsnum" where
  "jmax a b = (if a = NaN \<or> b = NaN then NaN else if jlt a b then b else a)"

text \<open>
  \<open>Math.hypot\<close> of two arguments: positive infinity when either is infinite (even
  beside a NaN), otherwise NaN when either is NaN, otherwise the Euclidean length.
\<close>

definition isInf :: "jsnum \<Rightarrow> bool" where
  "isInf a = (a = PInf \<or> a = NInf)"

fun hypot :: "jsnum \<Rightarrow> jsnum \<Rightarrow> jsnum" where
  "hypot (Num a) (Num b) = Num (sqrt (a * a + b * b))"
| "hypot a b = (if isInf a \<or> isInf b then PInf else NaN)"

text \<open>Truthiness of a number, and \<open>a || b\<close> on numbers.\<close>

fun truthy :: "jsnum \<Rightarrow> bool" where
  "truthy (Num a) = (a \<noteq> 0)"
| "truthy PInf = True"
| "truthy NInf = True"
| "truthy NaN = False"

definition jor :: "jsnum \<Rightarrow> jsnum \<Rightarrow> jsnum" where
  "jor a b = (if truthy a then a else b)"

fun finite_num :: "jsnum \<Rightarrow> bool" where
  "finite_num (Num a) = True"
| "finite_num a = False"

section \<open>Data model\<close>

text \<open>
  A point as \<open>#getCoordinates\<close> builds it. The pressure is optional: serialized data
  and the earlier revision's smoothed points carry none, and a missing property reads
  as \<open>undefined\<close>, which every comparison and arithmetic operation of the program
  converts to NaN.
\<close>

record point =
  xc :: jsnum
  yc :: jsnum
  time :: jsnum
  pressure :: "jsnum option"

definition pressureNum :: "point \<Rightarrow> jsnum" where
  "pressureNum p = (case pressure p of None \<Rightarrow> NaN | Some v \<Rightarrow> v)"

record stroke =
  points :: "point list"
  color :: string
  minWidth :: jsnum
  maxWidth :: jsnum

text \<open>The entries of \<open>this.options\<close> that the modelled functions read.\<close>

record options =
  optMinWidth :: jsnum
  optMaxWidth :: jsnum
  velocityFilterWeight :: jsnum
  dotSize :: jsnum
  minDistance :: jsnum
  smoothingRatio :: jsnum
  smoothingFadePoints :: jsnum
  pressureSupport :: bool

section \<open>The signature pad's state and its public operations\<close>

text \<open>
  The private fields of the class, its options, and a trace of what the object does to
  its collaborators: a repaint of the canvas, an event handed to the listeners and a
  line written to the console. Listener callbacks are code of the embedding page and
  are not run by the model.
\<close>

datatype event = EvClear | EvUndo nat | EvLoad nat

datatype effect = Redraw | Emit event | ConsoleError string

record state =
  opts :: options
  isDrawing :: bool
  currentStroke :: "point list"
  allStrokes :: "stroke list"
  drawing :: bool
  effects :: "effect list"

definition redrawCanvas :: "state \<Rightarrow> state" where
  "redrawCanvas s = s\<lparr>effects := effects s @ [Redraw]\<rparr>"

definition emit :: "event \<Rightarrow> state \<Rightarrow> state" where
  "emit e s = s\<lparr>effects := effects s @ [Emit e]\<rparr>"

definition resetState :: "state \<Rightarrow> state" where
  "resetState s = s\<lparr>isDrawing := False, currentStroke := [], allStrokes := [], drawing := False\<rparr>"

definition clear :: "state \<Rightarrow> state" where
  "clear s = emit EvClear (redrawCanvas (resetState s))"

text \<open>\<open>undo()\<close>: the returned boolean and the state after the call.\<close>

definition undo :: "state \<Rightarrow> bool \<times> state" where
  "undo s =
     (if length (allStrokes s) > 0 then
        (let s1 = s\<lparr>allStrokes := butlast (allStrokes s)\<rparr>;
             s2 = redrawCanvas s1;
             s3 = emit (EvUndo (length (allStrokes s2))) s2
         in (True, s3))
      else (False, s))"

definition isEmpty :: "state \<Rightarrow> bool" where
  "isEmpty s = (length (allStrokes s) = 0)"

definition toData :: "state \<Rightarrow> stroke list" where
  "toData s = allStrokes s"

text \<open>
  The argument of \<open>fromData\<close> is any JavaScript value; \<open>Array.isArray\<close> holds of
  an array only. The elements of an array are taken to be stroke records, as the
  serialized format has them.
\<close>

datatype jsvalue =
  JArray "stroke list" | JUndefined | JNull | JBool bool | JNumber jsnum | JString string | JObject

fun isArray :: "jsvalue \<Rightarrow> bool" where
  "isArray (JArray d) = True"
| "isArray v = False"

fun fromData :: "jsvalue \<Rightarrow> state \<Rightarrow> state" where
  "fromData (JArray d) s =
     (let s1 = clear s;
          s2 = s1\<lparr>allStrokes := d\<rparr>;
          s3 = redrawCanvas s2
      in emit (EvLoad (length (allStrokes s3))) s3)"
| "fromData v s = s\<lparr>effects := effects s @ [ConsoleError ''Data to load must be an array.'']\<rparr>"

text \<open>The defaults of \<open>_options\<close>.\<close>

definition defaultOptions :: options where
  "defaultOptions =
     \<lparr>optMinWidth = Num 0.5, optMaxWidth = Num 2.5, velocityFilterWeight = Num 0.7,
      dotSize = Num 2, minDistance = Num 0.8, smoothingRatio = Num 0.5,
      smoothingFadePoints = Num 4, pressureSupport = False\<rparr>"

section \<open>Width Modulator: calculateWidths\<close>

text \<open>
  \<open>points.some(p => p.pressure > 0 && p.pressure < 1)\<close>, guarded by the
  \<open>pressureSupport\<close> option.
\<close>

definition usePressure :: "options \<Rightarrow> point list \<Rightarrow> bool" where
  "usePressure os ps =
     (pressureSupport os \<and>
      list_ex (\<lambda>p. jgt (pressureNum p) (Num 0) \<and> jlt (pressureNum p) (Num 1)) ps)"

text \<open>The value of the local \<open>velocity\<close> in iteration \<open>i\<close> of the velocity branch.\<close>

definition instantVelocity :: "point list \<Rightarrow> nat \<Rightarrow> jsnum \<Rightarrow> jsnum" where
  "instantVelocity ps i lastVelocity =
     (if i > 0 then
        (let distance = hypot (jsub (xc (ps ! i)) (xc (ps ! (i - 1))))
                              (jsub (yc (ps ! i)) (yc (ps ! (i - 1))));
             t = jsub (time (ps ! i)) (time (ps ! (i - 1)))
         in if jgt t (Num 0) then jdiv distance t else lastVelocity)
      else Num 0)"

definition filterVelocity :: "options \<Rightarrow> jsnum \<Rightarrow> jsnum \<Rightarrow> jsnum" where
  "filterVelocity os velocity lastVelocity =
     jadd (jmul velocity (jsub (Num 1) (velocityFilterWeight os)))
          (jmul lastVelocity (velocityFilterWeight os))"

definition velocityWidth :: "jsnum \<Rightarrow> jsnum \<Rightarrow> jsnum \<Rightarrow> jsnum" where
  "velocityWidth minW maxW lastVelocity =
     jmax minW (jmin maxW (jsub maxW (jmul lastVelocity (Num 1.5))))"

definition pressureWidth :: "jsnum \<Rightarrow> jsnum \<Rightarrow> point \<Rightarrow> jsnum" where
  "pressureWidth minW maxW p = jadd minW (jmul (jsub maxW minW) (pressureNum p))"

text \<open>
  The \<open>for\<close> loop of \<open>#calculateWidths\<close>: \<open>i\<close> is the loop counter, \<open>widths\<close>
  the array built so far and \<open>lastVelocity\<close> the filtered velocity carried from one
  iteration to the next.
\<close>

function widthsLoop ::
  "options \<Rightarrow> point list \<Rightarrow> jsnum \<Rightarrow> jsnum \<Rightarrow> bool \<Rightarrow> nat \<Rightarrow> jsnum list \<Rightarrow> jsnum \<Rightarrow> jsnum list"
where
  "widthsLoop os ps minW maxW useP i widths lastVelocity =
     (if i < length ps then
        (if useP then
           widthsLoop os ps minW maxW useP (i + 1)
             (widths @ [pressureWidth minW maxW (ps ! i)]) lastVelocity
         else
           (let velocity = instantVelocity ps i lastVelocity;
                lastVelocity' = filterVelocity os velocity lastVelocity
            in widthsLoop os ps minW maxW useP (i + 1)
                 (widths @ [velocityWidth minW maxW lastVelocity']) lastVelocity'))
      else widths)"
  by pat_completeness auto
termination
  by (relation "measure (\<lambda>(os, ps, minW, maxW, useP, i, widths, lastVelocity). length ps - i)") auto

declare widthsLoop.simps [simp del]

definition calculateWidths :: "options \<Rightarrow> point list \<Rightarrow> jsnum \<Rightarrow> jsnum \<Rightarrow> jsnum list" where
  "calculateWidths os ps minW maxW =
     widthsLoop os ps minW maxW (usePressure os ps) 0 [] (Num 0)"

section \<open>Width Modulator over an arbitrary arithmetic\<close>

text \<open>
  The functions of the previous section compute with exact finite arithmetic. The
  program computes with IEEE doubles, whose operations round and overflow. Here the
  Width Modulator is given once more, line by line as before, with the five arithmetic
  operations it uses (\<open>+\<close>, \<open>-\<close>, \<open>*\<close>, \<open>/\<close> and \<open>Math.hypot\<close>) taken from a
  record, together with the set of the finite numbers of the arithmetic. Comparisons,
  \<open>Math.min\<close> and \<open>Math.max\<close> are exact in every floating-point arithmetic and stay
  as they are. What is proved of \<open>calculateWidthsA\<close> for every arithmetic, or for every
  arithmetic that obeys the laws of \<open>floatLaws\<close> below, holds of the program as it
  runs on doubles.
\<close>

record arith =
  machine :: "real \<Rightarrow> bool"
  addOp :: "jsnum \<Rightarrow> jsnum \<Rightarrow> jsnum"
  subOp :: "jsnum \<Rightarrow> jsnum \<Rightarrow> jsnum"
  mulOp :: "jsnum \<Rightarrow> jsnum \<Rightarrow> jsnum"
  divOp :: "jsnum \<Rightarrow> jsnum \<Rightarrow> jsnum"
  hypotOp :: "jsnum \<Rightarrow> jsnum \<Rightarrow> jsnum"

definition instantVelocityA :: "arith \<Rightarrow> point list \<Rightarrow> nat \<Rightarrow> jsnum \<Rightarrow> jsnum" where
  "instantVelocityA ar ps i lastVelocity =
     (if i > 0 then
        (let distance = hypotOp ar (subOp ar (xc (ps ! i)) (xc (ps ! (i - 1))))
                                   (subOp ar (yc (ps ! i)) (yc (ps ! (i - 1))));
             t = subOp ar (time (ps ! i)) (time (ps ! (i - 1)))
         in if jgt t (Num 0) then divOp ar distance t else lastVelocity)
      else Num 0)"

definition filterVelocityA :: "arith \<Rightarrow> options \<Rightarrow> jsnum \<Rightarrow> jsnum \<Rightarrow> jsnum" where
  "filterVelocityA ar os velocity lastVelocity =
     addOp ar (mulOp ar velocity (subOp ar (Num 1) (velocityFilterWeight os)))
              (mulOp ar lastVelocity (velocityFilterWeight os))"

definition velocityWidthA :: "arith \<Rightarrow> jsnum \<Rightarrow> jsnum \<Rightarrow> jsnum \<Rightarrow> jsnum" where
  "velocityWidthA ar minW maxW lastVelocity =
     jmax minW (jmin maxW (subOp ar maxW (mulOp ar lastVelocity (Num 1.5))))"

definition pressureWidthA :: "arith \<Rightarrow> jsnum \<Rightarrow> jsnum \<Rightarrow> point \<Rightarrow> jsnum" where
  "pressureWidthA ar minW maxW p =
     addOp ar minW (mulOp ar (subOp ar maxW minW) (pressureNum p))"

function widthsLoopA ::
  "arith \<Rightarrow> options \<Rightarrow> point list \<Rightarrow> jsnum \<Rightarrow> jsnum \<Rightarrow> bool \<Rightarrow> nat \<Rightarrow> jsnum list \<Rightarrow> jsnum
     \<Rightarrow> jsnum list"
where
  "widthsLoopA ar os ps minW maxW useP i widths lastVelocity =
     (if i < length ps then
        (if useP then
           widthsLoopA ar os ps minW maxW useP (i + 1)
             (widths @ [pressureWidthA ar minW maxW (ps ! i)]) lastVelocity
         else
           (let velocity = instantVelocityA ar ps i lastVelocity;
                lastVelocity' = filterVelocityA ar os velocity lastVelocity
            in widthsLoopA ar os ps minW maxW useP (i + 1)
                 (widths @ [velocityWidthA ar minW maxW lastVelocity']) lastVelocity'))
      else widths)"
  by pat_completeness auto
termination
  by (relation "measure (\<lambda>(ar, os, ps, minW, maxW, useP, i, widths, lastVelocity). length ps - i)")
    auto

declare widthsLoopA.simps [simp del]

definition calculateWidthsA ::
  "arith \<Rightarrow> options \<Rightarrow> point list \<Rightarrow> jsnum \<Rightarrow> jsnum \<Rightarrow> jsnum list" where
  "calculateWidthsA ar os ps minW maxW =
     widthsLoopA ar os ps minW maxW (usePressure os ps) 0 [] (Num 0)"

subsection \<open>Two arithmetics\<close>

text \<open>The exact arithmetic of the previous sections: every real is a number of it.\<close>

definition exactArith :: arith where
  "exactArith =
     \<lparr>machine = (\<lambda>a. True), addOp = jadd, subOp = jsub, mulOp = jmul, divOp = jdiv,
      hypotOp = hypot\<rparr>"

text \<open>
  An arithmetic with the range of the doubles: its finite numbers are the reals up to
  the largest double, \<open>2^1024 - 2^971\<close>, in absolute value, and a result beyond that is
  the infinity of its sign, as an overflowing operation on doubles gives. Within the
  range it does not round.
\<close>

definition maxDouble :: real where
  "maxDouble = 2 ^ 1024 - 2 ^ 971"

fun overflow :: "jsnum \<Rightarrow> jsnum" where
  "overflow (Num a) = (if maxDouble < a then PInf else if a < - maxDouble then NInf else Num a)"
| "overflow a = a"

definition overflowArith :: arith where
  "overflowArith =
     \<lparr>machine = (\<lambda>a. \<bar>a\<bar> \<le> maxDouble),
      addOp = (\<lambda>a b. overflow (jadd a b)), subOp = (\<lambda>a b. overflow (jsub a b)),
      mulOp = (\<lambda>a b. overflow (jmul a b)), divOp = (\<lambda>a b. overflow (jdiv a b)),
      hypotOp = (\<lambda>a b. overflow (hypot a b))\<rparr>"

subsection \<open>Laws of a floating-point arithmetic\<close>

text \<open>
  A value of the arithmetic is one of its finite numbers, an infinity or NaN. A value is
  non-negative when it is a finite number from 0 upwards or positive infinity, and
  positive and finite when it is a finite number above 0.
\<close>

definition machineVal :: "arith \<Rightarrow> jsnum \<Rightarrow> bool" where
  "machineVal ar a = (case a of Num r \<Rightarrow> machine ar r | _ \<Rightarrow> True)"

fun nonneg :: "jsnum \<Rightarrow> bool" where
  "nonneg (Num a) = (0 \<le> a)"
| "nonneg PInf = True"
| "nonneg a = False"

fun posfin :: "jsnum \<Rightarrow> bool" where
  "posfin (Num a) = (0 < a)"
| "posfin a = False"

text \<open>
  The laws that the proofs below use. Each of them holds of the doubles with any
  rounding: 0, 1 and 1.5 are doubles; every operation on values gives a value; a
  difference of finite numbers is not NaN, and is finite when both are non-negative;
  \<open>1 - w\<close> is positive for \<open>0 < w < 1\<close>; a finite number minus a non-negative value
  is not NaN; \<open>Math.hypot\<close> of two values other than NaN is non-negative; a
  non-negative value divided or multiplied by a positive finite number is non-negative
  (it may round to 0 or overflow to positive infinity); the sum of two non-negative
  values is non-negative. No law says that a result is finite or close to the exact one.
\<close>

definition floatLaws :: "arith \<Rightarrow> bool" where
  "floatLaws ar =
     (machine ar 0 \<and> machine ar 1 \<and> machine ar 1.5 \<and>
      (\<forall>a b. machineVal ar a \<and> machineVal ar b \<longrightarrow>
         machineVal ar (addOp ar a b) \<and> machineVal ar (subOp ar a b) \<and>
         machineVal ar (mulOp ar a b) \<and> machineVal ar (divOp ar a b) \<and>
         machineVal ar (hypotOp ar a b)) \<and>
      (\<forall>a b. machine ar a \<and> machine ar b \<longrightarrow> subOp ar (Num a) (Num b) \<noteq> NaN) \<and>
      (\<forall>a b. machine ar a \<and> machine ar b \<and> 0 \<le> a \<and> 0 \<le> b \<longrightarrow>
         finite_num (subOp ar (Num a) (Num b))) \<and>
      (\<forall>w. machine ar w \<and> 0 < w \<and> w < 1 \<longrightarrow> posfin (subOp ar (Num 1) (Num w))) \<and>
      (\<forall>a b. machine ar a \<and> machineVal ar b \<and> nonneg b \<longrightarrow> subOp ar (Num a) b \<noteq> NaN) \<and>
      (\<forall>a b. machineVal ar a \<and> machineVal ar b \<and> a \<noteq> NaN \<and> b \<noteq> NaN \<longrightarrow>
         nonneg (hypotOp ar a b)) \<and>
      (\<forall>a b. machineVal ar a \<and> machineVal ar b \<and> nonneg a \<and> posfin b \<longrightarrow>
         nonneg (divOp ar a b)) \<and>
      (\<forall>a b. machineVal ar a \<and> machineVal ar b \<and> nonneg a \<and> posfin b \<longrightarrow>
         nonneg (mulOp ar a b)) \<and>
      (\<forall>a b. machineVal ar a \<and> machineVal ar b \<and> nonneg a \<and> nonneg b \<longrightarrow>
         nonneg (addOp ar a b)))"

text \<open>
  Input within the arithmetic: a finite number of it; a point whose coordinates and
  timestamp are finite numbers of it, the timestamp not negative (as \<open>Date.now()\<close>
  gives it); a filter weight that is a finite number of it strictly between 0 and 1.
\<close>

definition finiteIn :: "arith \<Rightarrow> jsnum \<Rightarrow> bool" where
  "finiteIn ar a = (case a of Num r \<Rightarrow> machine ar r | _ \<Rightarrow> False)"

definition soundPoint :: "arith \<Rightarrow> point \<Rightarrow> bool" where
  "soundPoint ar p =
     (finiteIn ar (xc p) \<and> finiteIn ar (yc p) \<and> finiteIn ar (time p) \<and> nonneg (time p))"

definition innerWeight :: "arith \<Rightarrow> options \<Rightarrow> bool" where
  "innerWeight ar os =
     (finiteIn ar (velocityFilterWeight os) \<and> jgt (velocityFilterWeight os) (Num 0) \<and>
      jlt (velocityFilterWeight os) (Num 1))"

text \<open>
  A width within \<open>[lo, hi]\<close> by the comparisons of the program, and a width that is
  either NaN or within \<open>[lo, hi]\<close>.
\<close>

definition inRange :: "jsnum \<Rightarrow> jsnum \<Rightarrow> jsnum \<Rightarrow> bool" where
  "inRange lo hi w = (w \<noteq> NaN \<and> \<not> jlt w lo \<and> \<not> jlt hi w)"

definition inRangeOrNaN :: "jsnum \<Rightarrow> jsnum \<Rightarrow> jsnum \<Rightarrow> bool" where
  "inRangeOrNaN lo hi w = (w = NaN \<or> inRange lo hi w)"

section \<open>Point Simplifier: simplifyStroke\<close>

text \<open>
  The first loop of \<open>#simplifyStroke\<close>: \<open>i\<close> is the loop counter,
  \<open>simplifiedPoints\<close> the array of kept points and \<open>lastPoint\<close> the last kept point.
\<close>

function filterLoop :: "options \<Rightarrow> point list \<Rightarrow> nat \<Rightarrow> point list \<Rightarrow> point \<Rightarrow> point list" where
  "filterLoop os ps i simplifiedPoints lastPoint =
     (if i < length ps then
        (let distance = hypot (jsub (xc (ps ! i)) (xc lastPoint)) (jsub (yc (ps ! i)) (yc lastPoint))
         in if jgt distance (minDistance os)
            then filterLoop os ps (i + 1) (simplifiedPoints @ [ps ! i]) (ps ! i)
            else filterLoop os ps (i + 1) simplifiedPoints lastPoint)
      else simplifiedPoints)"
  by pat_completeness auto
termination
  by (relation "measure (\<lambda>(os, ps, i, simplifiedPoints, lastPoint). length ps - i)") auto

declare filterLoop.simps [simp del]

text \<open>
  The body of the second loop: the point pushed in iteration \<open>i\<close>, built from the
  kept points \<open>sp\<close>. The loop only runs with \<open>1 \<le> i\<close> and \<open>i + 1 < length sp\<close>,
  so the three reads are in range and \<open>simplifiedPoints.length - 2 - i\<close> is not negative.
\<close>

definition smoothedPoint :: "options \<Rightarrow> point list \<Rightarrow> nat \<Rightarrow> point" where
  "smoothedPoint os sp i =
     (let prev = sp ! (i - 1);
          current = sp ! i;
          next = sp ! (i + 1);
          fadeLength = smoothingFadePoints os;
          fadeInRatio = jmin (Num 1) (jdiv (Num (real i)) fadeLength);
          fadeOutRatio = jmin (Num 1) (jdiv (Num (real_of_int (int (length sp) - 2 - int i))) fadeLength);
          dynamicRatio = jmul (smoothingRatio os) (jmin fadeInRatio fadeOutRatio);
          smoothedX = jadd (jmul (xc current) (jsub (Num 1) dynamicRatio))
                           (jmul (jdiv (jadd (xc prev) (xc next)) (Num 2)) dynamicRatio);
          smoothedY = jadd (jmul (yc current) (jsub (Num 1) dynamicRatio))
                           (jmul (jdiv (jadd (yc prev) (yc next)) (Num 2)) dynamicRatio)
      in \<lparr>xc = smoothedX, yc = smoothedY, time = time current, pressure = pressure current\<rparr>)"

function smoothLoop :: "options \<Rightarrow> point list \<Rightarrow> nat \<Rightarrow> point list \<Rightarrow> point list" where
  "smoothLoop os sp i smoothedPoints =
     (if int i < int (length sp) - 1 then
        smoothLoop os sp (i + 1) (smoothedPoints @ [smoothedPoint os sp i])
      else smoothedPoints)"
  by pat_completeness auto
termination
  by (relation "measure (\<lambda>(os, sp, i, smoothedPoints). length sp - i)") auto

declare smoothLoop.simps [simp del]

definition simplifyStroke :: "options \<Rightarrow> point list \<Rightarrow> point list" where
  "simplifyStroke os ps =
     (if length ps < 3 then ps
      else
        (let simplifiedPoints = filterLoop os ps 1 [ps ! 0] (ps ! 0)
         in if length simplifiedPoints < 3 then simplifiedPoints
            else
              (let smoothedPoints = smoothLoop os simplifiedPoints 1 [simplifiedPoints ! 0]
               in smoothedPoints @ [simplifiedPoints ! (length simplifiedPoints - 1)])))"

section \<open>Outline Path Builder: generateSmoothSvgPathData\<close>

text \<open>
  The function returns a string built from template literals. The model keeps the
  string character by character, and for every interpolated number it keeps the number
  and the conversion that writes it: \<open>toFixed(2)\<close>, or the default conversion of a
  template literal. The empty list is the empty string.
\<close>

datatype sym = Ch char | ToFixed2 jsnum | ToString jsnum

text \<open>The characters of a piece of template text.\<close>

definition lit :: "string \<Rightarrow> sym list" where
  "lit s = map Ch s"

text \<open>A read of \<open>widths[i]\<close>: \<open>undefined\<close> beyond the array, which arithmetic turns into NaN.\<close>

definition widthAt :: "jsnum list \<Rightarrow> int \<Rightarrow> jsnum" where
  "widthAt ws i = (if 0 \<le> i \<and> i < int (length ws) then ws ! nat i else NaN)"

text \<open>
  The body of the first loop: the two points pushed to \<open>outline1\<close> and
  \<open>outline2\<close> in iteration \<open>i\<close>. The loop runs in the branch with at least two
  points and with \<open>i < length ps\<close>.
\<close>

definition outlinePair :: "point list \<Rightarrow> jsnum list \<Rightarrow> nat \<Rightarrow> (jsnum \<times> jsnum) \<times> (jsnum \<times> jsnum)" where
  "outlinePair ps ws i =
     (let p = ps ! i;
          nextP = (if i < length ps - 1 then ps ! (i + 1) else p);
          prevP = (if i > 0 then ps ! (i - 1) else p);
          tangentX = (if i = 0 then jsub (xc nextP) (xc p)
                      else if i = length ps - 1 then jsub (xc p) (xc prevP)
                      else jdiv (jsub (xc nextP) (xc prevP)) (Num 2));
          tangentY = (if i = 0 then jsub (yc nextP) (yc p)
                      else if i = length ps - 1 then jsub (yc p) (yc prevP)
                      else jdiv (jsub (yc nextP) (yc prevP)) (Num 2));
          len = jor (hypot tangentX tangentY) (Num 1);
          normalX = jdiv (jneg tangentY) len;
          normalY = jdiv tangentX len;
          halfWidth = jdiv (widthAt ws (int i)) (Num 2)
      in ((jadd (xc p) (jmul normalX halfWidth), jadd (yc p) (jmul normalY halfWidth)),
          (jsub (xc p) (jmul normalX halfWidth), jsub (yc p) (jmul normalY halfWidth))))"

function outlineLoop ::
  "point list \<Rightarrow> jsnum list \<Rightarrow> nat \<Rightarrow> (jsnum \<times> jsnum) list \<Rightarrow> (jsnum \<times> jsnum) list
     \<Rightarrow> (jsnum \<times> jsnum) list \<times> (jsnum \<times> jsnum) list"
where
  "outlineLoop ps ws i outline1 outline2 =
     (if i < length ps then
        outlineLoop ps ws (i + 1) (outline1 @ [fst (outlinePair ps ws i)])
          (outline2 @ [snd (outlinePair ps ws i)])
      else (outline1, outline2))"
  by pat_completeness auto
termination
  by (relation "measure (\<lambda>(ps, ws, i, outline1, outline2). length ps - i)") auto

declare outlineLoop.simps [simp del]

text \<open>
  The text appended in one iteration of either walk:
  \<open>` Q${p1.x.toFixed(2)},${p1.y.toFixed(2)} ${midX.toFixed(2)},${midY.toFixed(2)}`\<close>.
\<close>

definition quadText :: "jsnum \<times> jsnum \<Rightarrow> jsnum \<times> jsnum \<Rightarrow> sym list" where
  "quadText p1 p2 =
     (let midX = jdiv (jadd (fst p1) (fst p2)) (Num 2);
          midY = jdiv (jadd (snd p1) (snd p2)) (Num 2)
      in lit '' Q'' @ [ToFixed2 (fst p1)] @ lit '','' @ [ToFixed2 (snd p1)] @ lit '' '' @
         [ToFixed2 midX] @ lit '','' @ [ToFixed2 midY])"

function forwardLoop :: "(jsnum \<times> jsnum) list \<Rightarrow> nat \<Rightarrow> sym list \<Rightarrow> sym list" where
  "forwardLoop outline2 i pathData =
     (if int i < int (length outline2) - 1 then
        forwardLoop outline2 (i + 1) (pathData @ quadText (outline2 ! i) (outline2 ! (i + 1)))
      else pathData)"
  by pat_completeness auto
termination
  by (relation "measure (\<lambda>(outline2, i, pathData). length outline2 - i)") auto

declare forwardLoop.simps [simp del]

function backwardLoop :: "(jsnum \<times> jsnum) list \<Rightarrow> int \<Rightarrow> sym list \<Rightarrow> sym list" where
  "backwardLoop outline1 i pathData =
     (if i \<ge> 0 then
        backwardLoop outline1 (i - 1)
          (pathData @ quadText (outline1 ! nat (i + 1)) (outline1 ! nat i))
      else pathData)"
  by pat_completeness auto
termination
  by (relation "measure (\<lambda>(outline1, i, pathData). nat (i + 1))") auto

declare backwardLoop.simps [simp del]

definition generateSmoothSvgPathData :: "options \<Rightarrow> point list \<Rightarrow> jsnum list \<Rightarrow> sym list" where
  "generateSmoothSvgPathData os ps ws =
     (if length ps < 2 then
        (if length ps = 1 then
           (let r = jdiv (jor (optMaxWidth os) (dotSize os)) (Num 2)
            in lit ''M'' @ [ToFixed2 (xc (ps ! 0))] @ lit '','' @ [ToFixed2 (yc (ps ! 0))] @
               lit '' m-'' @ [ToString r] @ lit '',0 a'' @ [ToString r] @ lit '','' @ [ToString r] @
               lit '' 0 1,0 '' @ [ToString (jmul r (Num 2))] @ lit '',0 a'' @ [ToString r] @
               lit '','' @ [ToString r] @ lit '' 0 1,0 -'' @ [ToString (jmul r (Num 2))] @ lit '',0'')
         else [])
      else
        (let (outline1, outline2) = outlineLoop ps ws 0 [] [];
             startCapRadius = ToFixed2 (jdiv (widthAt ws 0) (Num 2));
             pathData1 = lit ''M'' @ [ToFixed2 (fst (outline1 ! 0))] @ lit '','' @
               [ToFixed2 (snd (outline1 ! 0))];
             pathData2 = pathData1 @ lit '' A'' @ [startCapRadius] @ lit '','' @ [startCapRadius] @
               lit '' 0 0 1 '' @ [ToFixed2 (fst (outline2 ! 0))] @ lit '','' @
               [ToFixed2 (snd (outline2 ! 0))];
             pathData3 = forwardLoop outline2 0 pathData2;
             pathData4 = pathData3 @ lit '' L'' @
               [ToFixed2 (fst (outline2 ! (length outline2 - 1)))] @ lit '','' @
               [ToFixed2 (snd (outline2 ! (length outline2 - 1)))];
             endCapRadius = ToFixed2 (jdiv (widthAt ws (int (length ws) - 1)) (Num 2));
             pathData5 = pathData4 @ lit '' A'' @ [endCapRadius] @ lit '','' @ [endCapRadius] @
               lit '' 0 0 1 '' @ [ToFixed2 (fst (outline1 ! (length outline1 - 1)))] @ lit '','' @
               [ToFixed2 (snd (outline1 ! (length outline1 - 1)))];
             pathData6 = backwardLoop outline1 (int (length outline1) - 2) pathData5
         in pathData6 @ lit '' Z''))"

section \<open>The earlier revision of the library\<close>

text \<open>
  The repository also holds the revision before 1.1. Its \<open>undo\<close> and its
  \<open>#generateSmoothSvgPathData\<close> are those of revision 1.1 as modelled above; it has
  no \<open>fromData\<close> and no pressure support. Two functions differ: the smoothed points
  of \<open>#simplifyStroke\<close> are built without a pressure, and \<open>#calculateWidths\<close> has
  the velocity branch only.
\<close>

definition smoothedPoint0 :: "options \<Rightarrow> point list \<Rightarrow> nat \<Rightarrow> point" where
  "smoothedPoint0 os sp i =
     (let prev = sp ! (i - 1);
          current = sp ! i;
          next = sp ! (i + 1);
          fadeLength = smoothingFadePoints os;
          fadeInRatio = jmin (Num 1) (jdiv (Num (real i)) fadeLength);
          fadeOutRatio = jmin (Num 1) (jdiv (Num (real_of_int (int (length sp) - 2 - int i))) fadeLength);
          dynamicRatio = jmul (smoothingRatio os) (jmin fadeInRatio fadeOutRatio);
          smoothedX = jadd (jmul (xc current) (jsub (Num 1) dynamicRatio))
                           (jmul (jdiv (jadd (xc prev) (xc next)) (Num 2)) dynamicRatio);
          smoothedY = jadd (jmul (yc current) (jsub (Num 1) dynamicRatio))
                           (jmul (jdiv (jadd (yc prev) (yc next)) (Num 2)) dynamicRatio)
      in \<lparr>xc = smoothedX, yc = smoothedY, time = time current, pressure = None\<rparr>)"

function smoothLoop0 :: "options \<Rightarrow> point list \<Rightarrow> nat \<Rightarrow> point list \<Rightarrow> point list" where
  "smoothLoop0 os sp i smoothedPoints =
     (if int i < int (length sp) - 1 then
        smoothLoop0 os sp (i + 1) (smoothedPoints @ [smoothedPoint0 os sp i])
      else smoothedPoints)"
  by pat_completeness auto
termination
  by (relation "measure (\<lambda>(os, sp, i, smoothedPoints). length sp - i)") auto

declare smoothLoop0.simps [simp del]

definition simplifyStroke0 :: "options \<Rightarrow> point list \<Rightarrow> point list" where
  "simplifyStroke0 os ps =
     (if length ps < 3 then ps
      else
        (let simplifiedPoints = filterLoop os ps 1 [ps ! 0] (ps ! 0)
         in if length simplifiedPoints < 3 then simplifiedPoints
            else
              (let smoothedPoints = smoothLoop0 os simplifiedPoints 1 [simplifiedPoints ! 0]
               in smoothedPoints @ [simplifiedPoints ! (length simplifiedPoints - 1)])))"

function widthsLoop0 ::
  "options \<Rightarrow> point list \<Rightarrow> jsnum \<Rightarrow> jsnum \<Rightarrow> nat \<Rightarrow> jsnum list \<Rightarrow> jsnum \<Rightarrow> jsnum list"
where
  "widthsLoop0 os ps minW maxW i widths lastVelocity =
     (if i < length ps then
        (let velocity = instantVelocity ps i lastVelocity;
             lastVelocity' = filterVelocity os velocity lastVelocity
         in widthsLoop0 os ps minW maxW (i + 1)
              (widths @ [velocityWidth minW maxW lastVelocity']) lastVelocity')
      else widths)"
  by pat_completeness auto
termination
  by (relation "measure (\<lambda>(os, ps, minW, maxW, i, widths, lastVelocity). length ps - i)") auto

declare widthsLoop0.simps [simp del]

definition calculateWidths0 :: "options \<Rightarrow> point list \<Rightarrow> jsnum \<Rightarrow> jsnum \<Rightarrow> jsnum list" where
  "calculateWidths0 os ps minW maxW = widthsLoop0 os ps minW maxW 0 [] (Num 0)"

text \<open>The position and the time of a point, without its pressure.\<close>

definition placed :: "point \<Rightarrow> jsnum \<times> jsnum \<times> jsnum" where
  "placed p = (xc p, yc p, time p)"

section \<open>The specification's algorithms\<close>

text \<open>
  The definitions of this section follow the words of the specification, not the code.
  The theorems below compare them with the functions of the program.
\<close>

subsection \<open>Well-formed numeric input\<close>

definition finitePoint :: "point \<Rightarrow> bool" where
  "finitePoint p = (finite_num (xc p) \<and> finite_num (yc p) \<and> finite_num (time p))"

definition finitePosition :: "point \<Rightarrow> bool" where
  "finitePosition p = (finite_num (xc p) \<and> finite_num (yc p))"

subsection \<open>Width Modulator, velocity mode\<close>

definition clamp :: "jsnum \<Rightarrow> jsnum \<Rightarrow> jsnum \<Rightarrow> jsnum" where
  "clamp v lo hi = jmax lo (jmin hi v)"

text \<open>The Euclidean distance from \<open>p\<close> to \<open>q\<close>.\<close>

definition specDistance :: "point \<Rightarrow> point \<Rightarrow> jsnum" where
  "specDistance p q = hypot (jsub (xc q) (xc p)) (jsub (yc q) (yc p))"

text \<open>
  The filtered velocity after point \<open>i\<close>. The instantaneous velocity is 0 for the first
  point, otherwise the distance from the previous point divided by the time delta, or
  the previous filtered velocity when \<open>fallback\<close> holds of the time delta. The filter
  starts from 0.
\<close>

fun specFiltered :: "(jsnum \<Rightarrow> bool) \<Rightarrow> options \<Rightarrow> point list \<Rightarrow> nat \<Rightarrow> jsnum" where
  "specFiltered fallback os ps 0 =
     jadd (jmul (Num 0) (jsub (Num 1) (velocityFilterWeight os)))
          (jmul (Num 0) (velocityFilterWeight os))"
| "specFiltered fallback os ps (Suc k) =
     (let previous = specFiltered fallback os ps k;
          dt = jsub (time (ps ! Suc k)) (time (ps ! k));
          instant = (if fallback dt then previous
                     else jdiv (specDistance (ps ! k) (ps ! Suc k)) dt)
      in jadd (jmul instant (jsub (Num 1) (velocityFilterWeight os)))
              (jmul previous (velocityFilterWeight os)))"

definition specVelocityWidths ::
  "(jsnum \<Rightarrow> bool) \<Rightarrow> options \<Rightarrow> point list \<Rightarrow> jsnum \<Rightarrow> jsnum \<Rightarrow> jsnum list" where
  "specVelocityWidths fallback os ps minW maxW =
     map (\<lambda>i. clamp (jsub maxW (jmul (specFiltered fallback os ps i) (Num 1.5))) minW maxW)
         [0..<length ps]"

text \<open>The fallback as the specification words it: the time delta is 0.\<close>

definition deltaIsZero :: "jsnum \<Rightarrow> bool" where
  "deltaIsZero dt = (dt = Num 0)"

text \<open>The fallback whenever the time delta is not greater than 0.\<close>

definition deltaNotPositive :: "jsnum \<Rightarrow> bool" where
  "deltaNotPositive dt = (\<not> jgt dt (Num 0))"

text \<open>The filtered velocity carried into the step for point \<open>i\<close>.\<close>

definition carried :: "(jsnum \<Rightarrow> bool) \<Rightarrow> options \<Rightarrow> point list \<Rightarrow> nat \<Rightarrow> jsnum" where
  "carried fallback os ps i = (case i of 0 \<Rightarrow> Num 0 | Suc k \<Rightarrow> specFiltered fallback os ps k)"

subsection \<open>Point Simplifier\<close>

text \<open>
  The distance filter: the first point is always kept, and a later point is kept exactly
  when its distance from the last kept point exceeds the minimum distance.
\<close>

fun keepFar :: "jsnum \<Rightarrow> point \<Rightarrow> point list \<Rightarrow> point list" where
  "keepFar d kept [] = []"
| "keepFar d kept (p # ps) =
     (if jgt (specDistance kept p) d then p # keepFar d p ps else keepFar d kept ps)"

fun distanceFilter :: "jsnum \<Rightarrow> point list \<Rightarrow> point list" where
  "distanceFilter d [] = []"
| "distanceFilter d (p # ps) = p # keepFar d p ps"

text \<open>The smoothing ratio of interior point \<open>i\<close> among \<open>n\<close> filtered points.\<close>

definition fadeRatio :: "options \<Rightarrow> nat \<Rightarrow> nat \<Rightarrow> jsnum" where
  "fadeRatio os n i =
     jmul (smoothingRatio os)
       (jmin (jmin (Num 1) (jdiv (Num (real i)) (smoothingFadePoints os)))
             (jmin (Num 1) (jdiv (Num (real n - 2 - real i)) (smoothingFadePoints os))))"

text \<open>\<open>(1 - ratio) * current + ratio * midpoint(prev, next)\<close> in one coordinate.\<close>

definition blend :: "jsnum \<Rightarrow> jsnum \<Rightarrow> jsnum \<Rightarrow> jsnum \<Rightarrow> jsnum" where
  "blend ratio current prev next =
     jadd (jmul (jsub (Num 1) ratio) current) (jmul ratio (jdiv (jadd prev next) (Num 2)))"

definition fadeSmooth :: "options \<Rightarrow> point list \<Rightarrow> point list" where
  "fadeSmooth os f =
     map (\<lambda>i. if i = 0 \<or> i = length f - 1 then f ! i
              else (f ! i)
                \<lparr>xc := blend (fadeRatio os (length f) i) (xc (f ! i)) (xc (f ! (i - 1))) (xc (f ! (i + 1))),
                 yc := blend (fadeRatio os (length f) i) (yc (f ! i)) (yc (f ! (i - 1))) (yc (f ! (i + 1)))\<rparr>)
         [0..<length f]"

definition specSimplify :: "options \<Rightarrow> point list \<Rightarrow> point list" where
  "specSimplify os ps =
     (if length ps < 3 then ps
      else if length (distanceFilter (minDistance os) ps) < 3 then distanceFilter (minDistance os) ps
      else fadeSmooth os (distanceFilter (minDistance os) ps))"

subsection \<open>Outline Path Builder\<close>

text \<open>
  The tangent at point \<open>i\<close>: the forward difference at the first point, the backward
  difference at the last, the centered difference \<open>(next - prev) / 2\<close> in between.
\<close>

definition specTangent :: "point list \<Rightarrow> nat \<Rightarrow> jsnum \<times> jsnum" where
  "specTangent ps i =
     (if i = 0 then (jsub (xc (ps ! 1)) (xc (ps ! 0)), jsub (yc (ps ! 1)) (yc (ps ! 0)))
      else if i = length ps - 1 then
        (jsub (xc (ps ! i)) (xc (ps ! (i - 1))), jsub (yc (ps ! i)) (yc (ps ! (i - 1))))
      else (jdiv (jsub (xc (ps ! (i + 1))) (xc (ps ! (i - 1)))) (Num 2),
            jdiv (jsub (yc (ps ! (i + 1))) (yc (ps ! (i - 1)))) (Num 2)))"

text \<open>The tangent's length, with 1 in place of the length of a zero-length tangent.\<close>

definition specLength :: "jsnum \<times> jsnum \<Rightarrow> jsnum" where
  "specLength t = (if hypot (fst t) (snd t) = Num 0 then Num 1 else hypot (fst t) (snd t))"

text \<open>The normal \<open>(-tangentY, tangentX) / length\<close>.\<close>

definition specNormal :: "point list \<Rightarrow> nat \<Rightarrow> jsnum \<times> jsnum" where
  "specNormal ps i =
     (jdiv (jneg (snd (specTangent ps i))) (specLength (specTangent ps i)),
      jdiv (fst (specTangent ps i)) (specLength (specTangent ps i)))"

text \<open>Point \<open>i\<close> displaced by plus and by minus \<open>normal * width[i] / 2\<close>.\<close>

definition specOutline1 :: "point list \<Rightarrow> jsnum list \<Rightarrow> nat \<Rightarrow> jsnum \<times> jsnum" where
  "specOutline1 ps ws i =
     (jadd (xc (ps ! i)) (jmul (fst (specNormal ps i)) (jdiv (ws ! i) (Num 2))),
      jadd (yc (ps ! i)) (jmul (snd (specNormal ps i)) (jdiv (ws ! i) (Num 2))))"

definition specOutline2 :: "point list \<Rightarrow> jsnum list \<Rightarrow> nat \<Rightarrow> jsnum \<times> jsnum" where
  "specOutline2 ps ws i =
     (jsub (xc (ps ! i)) (jmul (fst (specNormal ps i)) (jdiv (ws ! i) (Num 2))),
      jsub (yc (ps ! i)) (jmul (snd (specNormal ps i)) (jdiv (ws ! i) (Num 2))))"

definition specMidpoint :: "jsnum \<times> jsnum \<Rightarrow> jsnum \<times> jsnum \<Rightarrow> jsnum \<times> jsnum" where
  "specMidpoint a b = (jdiv (jadd (fst a) (fst b)) (Num 2), jdiv (jadd (snd a) (snd b)) (Num 2))"

text \<open>
  The commands of the SVG path syntax that the builder writes, and the numbers in them.
  A number is written with two decimals, by the default conversion, by the default
  conversion behind a minus sign, or as the digit 0. An arc has its two radii, its
  large-arc flag, its sweep flag and its end point; its x-axis rotation is always 0.
\<close>

datatype field = Fixed2 jsnum | Plain jsnum | MinusPlain jsnum | Zero

datatype pathcmd =
    MoveAbs field field
  | MoveRel field field
  | ArcAbs field field bool bool field field
  | ArcRel field field bool bool field field
  | QuadAbs field field field field
  | LineAbs field field
  | ClosePath

text \<open>
  The text of a command: its letter, its numbers separated by commas within a pair and
  by spaces between pairs. The builder writes the flags of an absolute arc apart
  (\<open>0 0 1\<close>) and those of a relative arc as a pair (\<open>0 1,0\<close>). The commands of a
  path are separated by single spaces.
\<close>

fun fieldText :: "field \<Rightarrow> sym list" where
  "fieldText (Fixed2 a) = [ToFixed2 a]"
| "fieldText (Plain a) = [ToString a]"
| "fieldText (MinusPlain a) = lit ''-'' @ [ToString a]"
| "fieldText Zero = lit ''0''"

definition flagText :: "bool \<Rightarrow> sym list" where
  "flagText b = (if b then lit ''1'' else lit ''0'')"

fun cmdText :: "pathcmd \<Rightarrow> sym list" where
  "cmdText (MoveAbs x y) = lit ''M'' @ fieldText x @ lit '','' @ fieldText y"
| "cmdText (MoveRel dx dy) = lit ''m'' @ fieldText dx @ lit '','' @ fieldText dy"
| "cmdText (ArcAbs rx ry large sweep x y) =
     lit ''A'' @ fieldText rx @ lit '','' @ fieldText ry @ lit '' 0 '' @ flagText large @
     lit '' '' @ flagText sweep @ lit '' '' @ fieldText x @ lit '','' @ fieldText y"
| "cmdText (ArcRel rx ry large sweep dx dy) =
     lit ''a'' @ fieldText rx @ lit '','' @ fieldText ry @ lit '' 0 '' @ flagText large @
     lit '','' @ flagText sweep @ lit '' '' @ fieldText dx @ lit '','' @ fieldText dy"
| "cmdText (QuadAbs cx cy x y) =
     lit ''Q'' @ fieldText cx @ lit '','' @ fieldText cy @ lit '' '' @ fieldText x @
     lit '','' @ fieldText y"
| "cmdText (LineAbs x y) = lit ''L'' @ fieldText x @ lit '','' @ fieldText y"
| "cmdText ClosePath = lit ''Z''"

definition spaced :: "pathcmd list \<Rightarrow> sym list" where
  "spaced cs = concat (map (\<lambda>c. lit '' '' @ cmdText c) cs)"

fun pathText :: "pathcmd list \<Rightarrow> sym list" where
  "pathText [] = []"
| "pathText (c # cs) = cmdText c @ spaced cs"

text \<open>
  The commands of the outline: a move to a point, an arc of a given radius with the
  sweep flag to a point, a quadratic curve with a control point to an end point, and a
  line to a point, each number written with two decimals.
\<close>

definition specMove :: "jsnum \<times> jsnum \<Rightarrow> pathcmd" where
  "specMove a = MoveAbs (Fixed2 (fst a)) (Fixed2 (snd a))"

definition specArc :: "jsnum \<Rightarrow> jsnum \<times> jsnum \<Rightarrow> pathcmd" where
  "specArc r a = ArcAbs (Fixed2 r) (Fixed2 r) False True (Fixed2 (fst a)) (Fixed2 (snd a))"

definition specQuad :: "jsnum \<times> jsnum \<Rightarrow> jsnum \<times> jsnum \<Rightarrow> pathcmd" where
  "specQuad c a = QuadAbs (Fixed2 (fst c)) (Fixed2 (snd c)) (Fixed2 (fst a)) (Fixed2 (snd a))"

definition specLine :: "jsnum \<times> jsnum \<Rightarrow> pathcmd" where
  "specLine a = LineAbs (Fixed2 (fst a)) (Fixed2 (snd a))"

text \<open>
  The closed outline of \<open>n\<close> points: from \<open>outline1[0]\<close> the start cap to
  \<open>outline2[0]\<close>, \<open>outline2\<close> forward through the midpoints of consecutive points and
  on to its last point, the end cap to the last point of \<open>outline1\<close>, \<open>outline1\<close>
  backward through the midpoints, and the closing of the path.
\<close>

definition specPath :: "point list \<Rightarrow> jsnum list \<Rightarrow> pathcmd list" where
  "specPath ps ws =
     (let n = length ps; o1 = specOutline1 ps ws; o2 = specOutline2 ps ws
      in [specMove (o1 0), specArc (jdiv (ws ! 0) (Num 2)) (o2 0)]
         @ map (\<lambda>i. specQuad (o2 i) (specMidpoint (o2 i) (o2 (i + 1)))) [0..<n - 1]
         @ [specLine (o2 (n - 1)), specArc (jdiv (ws ! (n - 1)) (Num 2)) (o1 (n - 1))]
         @ map (\<lambda>i. specQuad (o1 (i + 1)) (specMidpoint (o1 (i + 1)) (o1 i))) (rev [0..<n - 1])
         @ [ClosePath])"

text \<open>
  The dot of a single point: a move to the centre, a move left by the radius, and two
  arcs with the large-arc flag, to the right end of the horizontal diameter and back.
\<close>

definition specDot :: "jsnum \<times> jsnum \<Rightarrow> jsnum \<Rightarrow> pathcmd list" where
  "specDot c r =
     [MoveAbs (Fixed2 (fst c)) (Fixed2 (snd c)),
      MoveRel (MinusPlain r) Zero,
      ArcRel (Plain r) (Plain r) True False (Plain (jmul r (Num 2))) Zero,
      ArcRel (Plain r) (Plain r) True False (MinusPlain (jmul r (Num 2))) Zero]"

subsection \<open>Reading a path geometrically\<close>

text \<open>
  \<open>toFixed(2)\<close> of a finite number, as a number: the nearest multiple of 1/100, the
  larger one on a tie, taken on the absolute value and given the sign back.
\<close>

definition fixed2 :: "real \<Rightarrow> real" where
  "fixed2 a = (if a < 0 then - (real_of_int \<lfloor>(- a) * 100 + 1 / 2\<rfloor> / 100)
               else real_of_int \<lfloor>a * 100 + 1 / 2\<rfloor> / 100)"

text \<open>
  The number a field denotes in the path text, if it denotes one: neither \<open>NaN\<close> nor
  \<open>Infinity\<close> is a number of the path syntax, and a minus sign before a negative
  number is not one either.
\<close>

fun fieldValue :: "field \<Rightarrow> real option" where
  "fieldValue (Fixed2 (Num a)) = Some (fixed2 a)"
| "fieldValue (Plain (Num a)) = Some a"
| "fieldValue (MinusPlain (Num a)) = (if 0 \<le> a then Some (- a) else None)"
| "fieldValue Zero = Some 0"
| "fieldValue f = None"

text \<open>
  A circular arc of a path: its start point, its end point, its radius and its two
  flags.
\<close>

record arc =
  arcFrom :: "real \<times> real"
  arcTo :: "real \<times> real"
  arcRadius :: real
  arcLarge :: bool
  arcSweep :: bool

text \<open>
  The arcs of a path that starts with an absolute move and continues with relative moves
  and relative arcs of equal radii, each arc from the position of the pen before it. A
  move draws nothing. Any other command, and any field that is not a number, gives
  \<open>None\<close>.
\<close>

fun arcsFrom :: "real \<times> real \<Rightarrow> pathcmd list \<Rightarrow> arc list option" where
  "arcsFrom c [] = Some []"
| "arcsFrom c (MoveRel dx dy # cs) =
     (case (fieldValue dx, fieldValue dy) of
        (Some a, Some b) \<Rightarrow> arcsFrom (fst c + a, snd c + b) cs
      | _ \<Rightarrow> None)"
| "arcsFrom c (ArcRel rx ry large sweep dx dy # cs) =
     (case (fieldValue rx, fieldValue dx, fieldValue dy) of
        (Some r, Some a, Some b) \<Rightarrow>
          (if fieldValue ry = Some r then
             map_option
               ((#) \<lparr>arcFrom = c, arcTo = (fst c + a, snd c + b), arcRadius = r,
                     arcLarge = large, arcSweep = sweep\<rparr>)
               (arcsFrom (fst c + a, snd c + b) cs)
           else None)
      | _ \<Rightarrow> None)"
| "arcsFrom c (other # cs) = None"

fun arcsOf :: "pathcmd list \<Rightarrow> arc list option" where
  "arcsOf (MoveAbs x y # cs) =
     (case (fieldValue x, fieldValue y) of
        (Some a, Some b) \<Rightarrow> arcsFrom (a, b) cs
      | _ \<Rightarrow> None)"
| "arcsOf cs = None"

text \<open>
  The circle of an arc, by the conversion from endpoint to centre parameterization of
  the SVG standard for equal radii and no rotation. With \<open>h\<close> half the vector from the
  end point to the start point and \<open>d2\<close> its squared length, the squared radius is
  that of the arc, or \<open>d2\<close> when the radius is too short to span the end points, and the
  centre is the midpoint of the end points displaced by
  \<open>k * (hy, -hx)\<close> with \<open>k = sqrt ((r2 - d2) / d2)\<close>, negated when the two flags are
  equal.
\<close>

definition arcHalf :: "arc \<Rightarrow> real \<times> real" where
  "arcHalf A = ((fst (arcFrom A) - fst (arcTo A)) / 2, (snd (arcFrom A) - snd (arcTo A)) / 2)"

definition arcRadiusSq :: "arc \<Rightarrow> real" where
  "arcRadiusSq A =
     max ((arcRadius A)\<^sup>2) ((fst (arcHalf A))\<^sup>2 + (snd (arcHalf A))\<^sup>2)"

definition arcCentre :: "arc \<Rightarrow> real \<times> real" where
  "arcCentre A =
     (let hx = fst (arcHalf A); hy = snd (arcHalf A); d2 = hx\<^sup>2 + hy\<^sup>2;
          k = (if arcLarge A = arcSweep A then - 1 else 1) * sqrt ((arcRadiusSq A - d2) / d2)
      in (k * hy + (fst (arcFrom A) + fst (arcTo A)) / 2,
          - k * hx + (snd (arcFrom A) + snd (arcTo A)) / 2))"

text \<open>
  The points of an arc: those of its circle on the side of the chord on which the pen
  travels, which is the side where the cross product of the chord and the vector from
  the start point is not positive when the sweep flag is set (the angle increases), and
  not negative otherwise. An arc of radius 0 or between equal end points is not drawn
  as an arc.
\<close>

definition chordSide :: "arc \<Rightarrow> real \<times> real \<Rightarrow> real" where
  "chordSide A P =
     (fst (arcTo A) - fst (arcFrom A)) * (snd P - snd (arcFrom A)) -
     (snd (arcTo A) - snd (arcFrom A)) * (fst P - fst (arcFrom A))"

definition onArc :: "arc \<Rightarrow> real \<times> real \<Rightarrow> bool" where
  "onArc A P =
     (arcRadius A \<noteq> 0 \<and> arcFrom A \<noteq> arcTo A \<and>
      (fst P - fst (arcCentre A))\<^sup>2 + (snd P - snd (arcCentre A))\<^sup>2 = arcRadiusSq A \<and>
      (if arcSweep A then chordSide A P \<le> 0 else 0 \<le> chordSide A P))"

text \<open>The points that a path of moves and arcs draws.\<close>

definition onPath :: "pathcmd list \<Rightarrow> real \<times> real \<Rightarrow> bool" where
  "onPath cs P = (case arcsOf cs of Some as \<Rightarrow> list_ex (\<lambda>A. onArc A P) as | None \<Rightarrow> False)"

text \<open>
  The axis-aligned bounding box of a set of points is \<open>[x0, x1] \<times> [y0, y1]\<close>: every
  point is within the four bounds and each bound is reached.
\<close>

definition boundingBox :: "(real \<times> real) set \<Rightarrow> real \<Rightarrow> real \<Rightarrow> real \<Rightarrow> real \<Rightarrow> bool" where
  "boundingBox S x0 x1 y0 y1 =
     ((\<forall>P \<in> S. x0 \<le> fst P \<and> fst P \<le> x1 \<and> y0 \<le> snd P \<and> snd P \<le> y1) \<and>
      (\<exists>P \<in> S. fst P = x0) \<and> (\<exists>P \<in> S. fst P = x1) \<and>
      (\<exists>P \<in> S. snd P = y0) \<and> (\<exists>P \<in> S. snd P = y1))"

subsection \<open>Width Modulator, velocity mode, over an arbitrary arithmetic\<close>

text \<open>
  The recurrence of the specification once more, with the operations of an arithmetic:
  the filtered velocity after point \<open>i\<close> and the widths.
\<close>

fun specFilteredA :: "arith \<Rightarrow> (jsnum \<Rightarrow> bool) \<Rightarrow> options \<Rightarrow> point list \<Rightarrow> nat \<Rightarrow> jsnum" where
  "specFilteredA ar fallback os ps 0 =
     addOp ar (mulOp ar (Num 0) (subOp ar (Num 1) (velocityFilterWeight os)))
              (mulOp ar (Num 0) (velocityFilterWeight os))"
| "specFilteredA ar fallback os ps (Suc k) =
     (let previous = specFilteredA ar fallback os ps k;
          dt = subOp ar (time (ps ! Suc k)) (time (ps ! k));
          instant = (if fallback dt then previous
                     else divOp ar (hypotOp ar (subOp ar (xc (ps ! Suc k)) (xc (ps ! k)))
                                               (subOp ar (yc (ps ! Suc k)) (yc (ps ! k)))) dt)
      in addOp ar (mulOp ar instant (subOp ar (Num 1) (velocityFilterWeight os)))
                  (mulOp ar previous (velocityFilterWeight os)))"

definition specVelocityWidthsA ::
  "arith \<Rightarrow> (jsnum \<Rightarrow> bool) \<Rightarrow> options \<Rightarrow> point list \<Rightarrow> jsnum \<Rightarrow> jsnum \<Rightarrow> jsnum list" where
  "specVelocityWidthsA ar fallback os ps minW maxW =
     map (\<lambda>i. clamp (subOp ar maxW (mulOp ar (specFilteredA ar fallback os ps i) (Num 1.5)))
                minW maxW)
         [0..<length ps]"

definition carriedA :: "arith \<Rightarrow> (jsnum \<Rightarrow> bool) \<Rightarrow> options \<Rightarrow> point list \<Rightarrow> nat \<Rightarrow> jsnum" where
  "carriedA ar fallback os ps i =
     (case i of 0 \<Rightarrow> Num 0 | Suc k \<Rightarrow> specFilteredA ar fallback os ps k)"

text \<open>
  A division that agrees with that of the arithmetic whenever the divisor is greater
  than 0, and is arbitrary otherwise.
\<close>

definition agreesOnPositive :: "arith \<Rightarrow> (jsnum \<Rightarrow> jsnum \<Rightarrow> jsnum) \<Rightarrow> bool" where
  "agreesOnPositive ar d = (\<forall>a b. jgt b (Num 0) \<longrightarrow> d a b = divOp ar a b)"

section \<open>Example data\<close>

text \<open>Concrete points, strokes and states for the instances below.\<close>

definition mkPoint :: "real \<Rightarrow> real \<Rightarrow> real \<Rightarrow> real \<Rightarrow> point" where
  "mkPoint a b t p = \<lparr>xc = Num a, yc = Num b, time = Num t, pressure = Some (Num p)\<rparr>"

definition mkStroke :: "point list \<Rightarrow> stroke" where
  "mkStroke ps = \<lparr>points = ps, color = ''#000000'', minWidth = Num 0.5, maxWidth = Num 2.5\<rparr>"

definition initialState :: state where
  "initialState =
     \<lparr>opts = defaultOptions, isDrawing = False, currentStroke = [], allStrokes = [],
      drawing = False, effects = []\<rparr>"

text \<open>The default options with pressure support switched on.\<close>

definition pressureOptions :: options where
  "pressureOptions = defaultOptions\<lparr>pressureSupport := True\<rparr>"

text \<open>Three points whose second timestamp lies before the first.\<close>

definition pts3 :: "point list" where
  "pts3 = [mkPoint 0 0 10 0.5, mkPoint 3 0 4 0.5, mkPoint 4 0 5 0.5]"

text \<open>A pen that reports a graded pressure, and one that reports only 0 and 1.\<close>

definition ptsPen :: "point list" where
  "ptsPen = [mkPoint 0 0 0 0.25, mkPoint 3 0 4 1]"

definition ptsBinary :: "point list" where
  "ptsBinary = [mkPoint 0 0 0 0, mkPoint 3 0 4 1]"

text \<open>Serialized points with a pressure above 1.\<close>

definition ptsOverPressure :: "point list" where
  "ptsOverPressure = [mkPoint 0 0 0 0.5, mkPoint 3 0 4 1.5]"

text \<open>The default options with the smoothing ratio set to 0.\<close>

definition noSmoothing :: options where
  "noSmoothing = defaultOptions\<lparr>smoothingRatio := Num 0\<rparr>"

text \<open>A stroke that goes right, returns to its start and goes right again.\<close>

definition ptsBack :: "point list" where
  "ptsBack = [mkPoint 0 0 0 0.5, mkPoint 0.875 0 10 0.5, mkPoint 0 0 20 0.5, mkPoint 5 0 30 0.5]"

text \<open>Three points on a horizontal line, and a single point.\<close>

definition ptsLine :: "point list" where
  "ptsLine = [mkPoint 0 0 0 0.5, mkPoint 4 0 10 0.5, mkPoint 8 0 20 0.5]"

definition ptDot :: point where
  "ptDot = mkPoint 10 10 0 0.5"

text \<open>A point whose x coordinate has three decimals.\<close>

definition ptEighth :: point where
  "ptEighth = mkPoint 0.125 10 0 0.5"

text \<open>
  The default options with the filter weight 0 and with the filter weight 1, the two
  ends of its documented range.
\<close>

definition weightZero :: options where
  "weightZero = defaultOptions\<lparr>velocityFilterWeight := Num 0\<rparr>"

definition weightOne :: options where
  "weightOne = defaultOptions\<lparr>velocityFilterWeight := Num 1\<rparr>"

text \<open>
  Two doubles: the power of two of which the double is beyond the largest double, and a
  power of two by which 3 divided is beyond the largest double.
\<close>

definition halfMax :: real where
  "halfMax = 2 ^ 1023"

definition tinyTime :: real where
  "tinyTime = 1 / 2 ^ 1030"

text \<open>
  Three points of which the first is \<open>2^1024\<close> away from the other two, one millisecond
  apart.
\<close>

definition ptsFar :: "point list" where
  "ptsFar = [mkPoint (- halfMax) 0 0 0.5, mkPoint halfMax 0 1 0.5, mkPoint halfMax 0 2 0.5]"

text \<open>Three nearby points of which the second comes \<open>2^-1030\<close> ms after the first.\<close>

definition ptsQuick :: "point list" where
  "ptsQuick = [mkPoint 0 0 0 0.5, mkPoint 3 0 tinyTime 0.5, mkPoint 4 0 1 0.5]"

text \<open>Two points \<open>2^1024\<close> apart in space and in time, the first with a negative timestamp.\<close>

definition ptsAges :: "point list" where
  "ptsAges = [mkPoint (- halfMax) 0 (- halfMax) 0.5, mkPoint halfMax 0 halfMax 0.5]"

text \<open>
  The division of \<open>overflowArith\<close> when the divisor is greater than 0, and NaN
  otherwise.
\<close>

definition positiveDiv :: "jsnum \<Rightarrow> jsnum \<Rightarrow> jsnum" where
  "positiveDiv a b = (if jgt b (Num 0) then overflow (jdiv a b) else NaN)"

section \<open>Properties of undo and fromData\<close>

lemma undo_empty: "allStrokes s = [] \<Longrightarrow> undo s = (False, s)"
  by (simp add: undo_def)

lemma undo_nonempty:
  "allStrokes s = earlier @ [latest] \<Longrightarrow>
   undo s = (True, s\<lparr>allStrokes := earlier,
                      effects := effects s @ [Redraw, Emit (EvUndo (length earlier))]\<rparr>)"
  by (simp add: undo_def redrawCanvas_def emit_def Let_def)

text \<open>
  C8: \<open>undo()\<close> on an empty stroke collection returns false and leaves the whole state
  as it was; on a non-empty collection it returns true and removes exactly the most
  recently appended stroke: the collection becomes the earlier strokes, unchanged and in
  order, and nothing of the state changes besides the collection and the trace, which
  gains the repaint and the \<open>undo\<close> event with the number of strokes left.
\<close>

theorem undo_pops_latest:
  "(allStrokes s = [] \<longrightarrow> undo s = (False, s)) \<and>
   (allStrokes s = earlier @ [latest] \<longrightarrow>
      fst (undo s) = True \<and>
      allStrokes (snd (undo s)) = earlier \<and>
      snd (undo s) = s\<lparr>allStrokes := earlier,
                        effects := effects s @ [Redraw, Emit (EvUndo (length earlier))]\<rparr>)"
  by (simp add: undo_empty undo_nonempty)

theorem undo_pops_latest_witness:
  "undo initialState = (False, initialState) \<and>
   fst (undo (initialState\<lparr>allStrokes := [mkStroke [mkPoint 1 1 0 0.5], mkStroke []]\<rparr>)) = True \<and>
   allStrokes (snd (undo (initialState\<lparr>allStrokes := [mkStroke [mkPoint 1 1 0 0.5], mkStroke []]\<rparr>)))
     = [mkStroke [mkPoint 1 1 0 0.5]]"
  using undo_pops_latest [of initialState "[]" "mkStroke []"]
    undo_pops_latest [of "initialState\<lparr>allStrokes := [mkStroke [mkPoint 1 1 0 0.5], mkStroke []]\<rparr>"
      "[mkStroke [mkPoint 1 1 0 0.5]]" "mkStroke []"]
  by (simp add: initialState_def)

lemma fromData_array:
  "fromData (JArray d) s =
     s\<lparr>isDrawing := False, currentStroke := [], allStrokes := d, drawing := False,
       effects := effects s @ [Redraw, Emit EvClear, Redraw, Emit (EvLoad (length d))]\<rparr>"
  by (simp add: clear_def resetState_def redrawCanvas_def emit_def Let_def)

lemma fromData_not_array:
  "\<not> isArray v \<Longrightarrow>
   fromData v s = s\<lparr>effects := effects s @ [ConsoleError ''Data to load must be an array.'']\<rparr>"
  by (cases v) simp_all

text \<open>
  C9: for every argument that is not an array, \<open>fromData\<close> writes the error to the
  console, returns without loading, and leaves the stroke collection and every other
  field of the state as it was before the call (nothing is cleared); the only change is
  the console line in the trace. For every array argument the stroke collection after
  the call is that array, whatever the collection held before.
\<close>

theorem fromData_rejects_non_array:
  "(\<not> isArray v \<longrightarrow>
      fromData v s = s\<lparr>effects := effects s @ [ConsoleError ''Data to load must be an array.'']\<rparr> \<and>
      allStrokes (fromData v s) = allStrokes s \<and>
      currentStroke (fromData v s) = currentStroke s \<and>
      isDrawing (fromData v s) = isDrawing s \<and>
      drawing (fromData v s) = drawing s \<and>
      opts (fromData v s) = opts s) \<and>
   allStrokes (fromData (JArray d) s) = d"
  by (simp add: fromData_not_array fromData_array del: fromData.simps)

theorem fromData_rejects_non_array_witness:
  "\<not> isArray JNull \<and>
   fromData JNull (initialState\<lparr>allStrokes := [mkStroke [mkPoint 1 1 0 0.5]]\<rparr>) =
     initialState\<lparr>allStrokes := [mkStroke [mkPoint 1 1 0 0.5]],
                  effects := [ConsoleError ''Data to load must be an array.'']\<rparr> \<and>
   allStrokes (fromData JNull (initialState\<lparr>allStrokes := [mkStroke [mkPoint 1 1 0 0.5]]\<rparr>)) =
     [mkStroke [mkPoint 1 1 0 0.5]]"
  using fromData_rejects_non_array
    [of JNull "initialState\<lparr>allStrokes := [mkStroke [mkPoint 1 1 0 0.5]]\<rparr>" "[]"]
  by (simp add: initialState_def)

section \<open>Properties of the Width Modulator\<close>

subsection \<open>The loop and the two modes\<close>

lemma widthsLoop_length:
  "length (widthsLoop os ps minW maxW useP i ws lv) = length ws + (length ps - i)"
proof (induction os ps minW maxW useP i ws lv rule: widthsLoop.induct)
  case (1 os ps minW maxW useP i ws lv)
  show ?case
  proof (cases "i < length ps")
    case False
    then show ?thesis by (subst widthsLoop.simps) simp
  next
    case True
    show ?thesis
    proof (cases useP)
      case True
      with \<open>i < length ps\<close> "1.IH"(1) show ?thesis
        by (subst widthsLoop.simps) simp
    next
      case False
      with \<open>i < length ps\<close> "1.IH"(2) show ?thesis
        by (subst widthsLoop.simps) (simp add: Let_def)
    qed
  qed
qed

lemma step_matches_spec:
  "filterVelocity os (instantVelocity ps i (carried deltaNotPositive os ps i))
       (carried deltaNotPositive os ps i) = specFiltered deltaNotPositive os ps i"
  by (cases i)
     (simp_all add: carried_def filterVelocity_def instantVelocity_def specDistance_def
        deltaNotPositive_def Let_def)

lemma widthsLoop_velocity:
  "\<not> useP \<Longrightarrow> i \<le> length ps \<Longrightarrow> lv = carried deltaNotPositive os ps i \<Longrightarrow>
   widthsLoop os ps minW maxW useP i ws lv =
     ws @ map (\<lambda>k. clamp (jsub maxW (jmul (specFiltered deltaNotPositive os ps k) (Num 1.5))) minW maxW)
            [i..<length ps]"
proof (induction os ps minW maxW useP i ws lv rule: widthsLoop.induct)
  case (1 os ps minW maxW useP i ws lv)
  show ?case
  proof (cases "i < length ps")
    case False
    then show ?thesis by (subst widthsLoop.simps) simp
  next
    case True
    let ?v = "instantVelocity ps i lv"
    let ?lv' = "filterVelocity os ?v lv"
    have lv': "?lv' = specFiltered deltaNotPositive os ps i"
      using "1.prems"(3) step_matches_spec by simp
    then have next_carried: "?lv' = carried deltaNotPositive os ps (i + 1)"
      by (simp add: carried_def)
    have "widthsLoop os ps minW maxW useP (i + 1) (ws @ [velocityWidth minW maxW ?lv']) ?lv' =
          (ws @ [velocityWidth minW maxW ?lv']) @
            map (\<lambda>k. clamp (jsub maxW (jmul (specFiltered deltaNotPositive os ps k) (Num 1.5))) minW maxW)
              [i + 1..<length ps]"
      using "1.IH"(2) [OF True "1.prems"(1) refl refl "1.prems"(1) _ next_carried] True by simp
    moreover have "[i..<length ps] = i # [i + 1..<length ps]"
      using True by (simp add: upt_conv_Cons)
    ultimately show ?thesis
      using True "1.prems"(1) lv'
      by (subst widthsLoop.simps) (simp add: Let_def velocityWidth_def clamp_def)
  qed
qed

lemma widthsLoop_pressure:
  "useP \<Longrightarrow> i \<le> length ps \<Longrightarrow>
   widthsLoop os ps minW maxW useP i ws lv = ws @ map (pressureWidth minW maxW) (drop i ps)"
proof (induction os ps minW maxW useP i ws lv rule: widthsLoop.induct)
  case (1 os ps minW maxW useP i ws lv)
  show ?case
  proof (cases "i < length ps")
    case False
    then show ?thesis by (subst widthsLoop.simps) simp
  next
    case True
    have "drop i ps = ps ! i # drop (i + 1) ps"
      using True by (simp add: Cons_nth_drop_Suc)
    then show ?thesis
      using "1.IH"(1) [OF True "1.prems"(1) "1.prems"(1)] True "1.prems"(1)
      by (subst widthsLoop.simps) simp
  qed
qed

lemma finite_num_iff: "finite_num a \<longleftrightarrow> (\<exists>r. a = Num r)"
  by (cases a) simp_all

lemma between_zero_one_iff:
  "jgt a (Num 0) \<and> jlt a (Num 1) \<longleftrightarrow> (\<exists>v. a = Num v \<and> 0 < v \<and> v < 1)"
  by (cases a) (auto simp: jgt_def)

lemma usePressure_iff:
  "usePressure os ps \<longleftrightarrow>
     pressureSupport os \<and> (\<exists>p \<in> set ps. \<exists>v. pressure p = Some (Num v) \<and> 0 < v \<and> v < 1)"
proof -
  have "pressureNum p = Num v \<longleftrightarrow> pressure p = Some (Num v)" for p v
    by (simp add: pressureNum_def split: option.splits)
  then show ?thesis
    by (simp add: usePressure_def list_ex_iff between_zero_one_iff)
qed

lemma calculateWidths_pressure:
  "usePressure os ps \<Longrightarrow> calculateWidths os ps minW maxW = map (pressureWidth minW maxW) ps"
  by (simp add: calculateWidths_def widthsLoop_pressure)

lemma calculateWidths_velocity:
  "\<not> usePressure os ps \<Longrightarrow>
   calculateWidths os ps minW maxW = specVelocityWidths deltaNotPositive os ps minW maxW"
  by (simp add: calculateWidths_def widthsLoop_velocity carried_def specVelocityWidths_def)

lemma pts3_velocity_widths:
  "calculateWidths defaultOptions pts3 (Num 0.5) (Num 2.5) = [Num 2.5, Num 2.5, Num 2.05]"
  by (simp add: calculateWidths_def usePressure_def defaultOptions_def pts3_def mkPoint_def
      widthsLoop.simps instantVelocity_def filterVelocity_def velocityWidth_def jsub_def jgt_def
      jmin_def jmax_def Let_def)

lemma pts3_worded_widths:
  "specVelocityWidths deltaIsZero defaultOptions pts3 (Num 0.5) (Num 2.5) =
     [Num 2.5, Num 2.5, Num 2.2075]"
  by (simp add: specVelocityWidths_def defaultOptions_def pts3_def mkPoint_def
      eval_nat_numeral deltaIsZero_def specDistance_def clamp_def jsub_def
      jmin_def jmax_def Let_def)

lemma first_velocity_width:
  assumes "finite_num (velocityFilterWeight os)"
  shows "clamp (jsub maxW (jmul (specFiltered fallback os ps 0) (Num 1.5))) minW maxW = jmax minW maxW"
proof -
  from assms obtain w where "velocityFilterWeight os = Num w" by (auto simp: finite_num_iff)
  then have "specFiltered fallback os ps 0 = Num 0" by (simp add: jsub_def)
  then show ?thesis by (cases maxW) (simp_all add: clamp_def jsub_def jmin_def)
qed

subsection \<open>Velocity mode\<close>

text \<open>
  C2 (amended): in velocity mode \<open>calculateWidths\<close> computes, for every point
  sequence, the widths of the specification's recurrence: instantaneous velocity 0 for
  the first point, otherwise the distance from the previous point divided by the time
  delta, with the previous filtered velocity in its place whenever the time delta is not
  greater than 0 (zero, negative or not a number); filtered velocity
  \<open>v_instant * (1 - weight) + v_filtered * weight\<close>; width
  \<open>clamp(maxWidth - v_filtered * 1.5, minWidth, maxWidth)\<close>. With a finite filter
  weight the first width is \<open>Math.max(minWidth, maxWidth)\<close>.
\<close>

theorem velocity_widths_refine_spec:
  assumes "\<not> usePressure os ps"
  shows "calculateWidths os ps minW maxW = specVelocityWidths deltaNotPositive os ps minW maxW \<and>
         (ps \<noteq> [] \<and> finite_num (velocityFilterWeight os) \<longrightarrow>
            calculateWidths os ps minW maxW ! 0 = jmax minW maxW)"
proof -
  have eq: "calculateWidths os ps minW maxW = specVelocityWidths deltaNotPositive os ps minW maxW"
    using assms by (rule calculateWidths_velocity)
  have "specVelocityWidths deltaNotPositive os ps minW maxW ! 0 = jmax minW maxW"
    if "ps \<noteq> []" and "finite_num (velocityFilterWeight os)"
  proof -
    from that(1) have "0 < length ps" by simp
    then have "specVelocityWidths deltaNotPositive os ps minW maxW ! 0 =
        clamp (jsub maxW (jmul (specFiltered deltaNotPositive os ps 0) (Num 1.5))) minW maxW"
      unfolding specVelocityWidths_def by (subst nth_map) simp_all
    with first_velocity_width [OF that(2)] show ?thesis by simp
  qed
  with eq show ?thesis by simp
qed

theorem velocity_widths_refine_spec_witness:
  "\<not> usePressure defaultOptions pts3 \<and>
   calculateWidths defaultOptions pts3 (Num 0.5) (Num 2.5) =
     specVelocityWidths deltaNotPositive defaultOptions pts3 (Num 0.5) (Num 2.5) \<and>
   calculateWidths defaultOptions pts3 (Num 0.5) (Num 2.5) ! 0 = jmax (Num 0.5) (Num 2.5)"
proof -
  have h: "\<not> usePressure defaultOptions pts3"
    by (simp add: usePressure_def defaultOptions_def)
  have "pts3 \<noteq> []" "finite_num (velocityFilterWeight defaultOptions)"
    by (simp_all add: pts3_def defaultOptions_def)
  with velocity_widths_refine_spec [OF h, of "Num 0.5" "Num 2.5"] h show ?thesis by blast
qed

text \<open>
  The recurrence as the specification words it falls back only when the time delta is 0,
  and divides otherwise.
  On \<open>pts3\<close>, whose second timestamp is 6 ms before the first, the program falls back
  at the second point and the third width is 2.05, where the worded recurrence divides
  by -6 and arrives at 2.2075.
\<close>

theorem velocity_fallback_only_zero_counterexample:
  "calculateWidths defaultOptions pts3 (Num 0.5) (Num 2.5) = [Num 2.5, Num 2.5, Num 2.05] \<and>
   specVelocityWidths deltaIsZero defaultOptions pts3 (Num 0.5) (Num 2.5) =
     [Num 2.5, Num 2.5, Num 2.2075] \<and>
   calculateWidths defaultOptions pts3 (Num 0.5) (Num 2.5) \<noteq>
     specVelocityWidths deltaIsZero defaultOptions pts3 (Num 0.5) (Num 2.5)"
  using pts3_velocity_widths pts3_worded_widths by simp

subsection \<open>Pressure mode\<close>

text \<open>
  C3: pressure mode is used in a call of \<open>calculateWidths\<close> if and only if
  \<open>pressureSupport\<close> is enabled and some point of the sequence carries a pressure
  strictly between 0 and 1; a sequence whose pressures are all exactly 0 or exactly 1
  never triggers it; when it is used every width is
  \<open>minWidth + (maxWidth - minWidth) * pressure\<close> of its point. The decision is a
  function of the options and the points of the call alone.
\<close>

theorem pressure_mode_decision:
  "(usePressure os ps \<longleftrightarrow>
      pressureSupport os \<and> (\<exists>p \<in> set ps. \<exists>v. pressure p = Some (Num v) \<and> 0 < v \<and> v < 1)) \<and>
   ((\<forall>p \<in> set ps. pressure p = Some (Num 0) \<or> pressure p = Some (Num 1)) \<longrightarrow>
      \<not> usePressure os ps) \<and>
   (usePressure os ps \<longrightarrow>
      calculateWidths os ps minW maxW =
        map (\<lambda>p. jadd minW (jmul (jsub maxW minW) (pressureNum p))) ps)"
proof -
  have "\<not> usePressure os ps"
    if "\<forall>p \<in> set ps. pressure p = Some (Num 0) \<or> pressure p = Some (Num 1)"
    using that by (auto simp: usePressure_iff)
  moreover have "calculateWidths os ps minW maxW =
      map (\<lambda>p. jadd minW (jmul (jsub maxW minW) (pressureNum p))) ps" if "usePressure os ps"
    using calculateWidths_pressure [OF that] by (simp add: pressureWidth_def)
  ultimately show ?thesis
    using usePressure_iff by blast
qed

theorem pressure_mode_decision_witness:
  "usePressure pressureOptions ptsPen \<and>
   calculateWidths pressureOptions ptsPen (Num 0.5) (Num 2.5) = [Num 1, Num 2.5] \<and>
   \<not> usePressure pressureOptions ptsBinary \<and>
   \<not> usePressure defaultOptions ptsPen"
proof -
  have "pressure (mkPoint 0 0 0 0.25) = Some (Num 0.25) \<and> (0::real) < 0.25 \<and> (0.25::real) < 1"
    by (simp add: mkPoint_def)
  then have "\<exists>v. pressure (mkPoint 0 0 0 0.25) = Some (Num v) \<and> 0 < v \<and> v < 1" ..
  moreover have "mkPoint 0 0 0 0.25 \<in> set ptsPen"
    by (simp add: ptsPen_def)
  ultimately have "\<exists>p \<in> set ptsPen. \<exists>v. pressure p = Some (Num v) \<and> 0 < v \<and> v < 1" ..
  moreover have "pressureSupport pressureOptions"
    by (simp add: pressureOptions_def)
  ultimately have a: "usePressure pressureOptions ptsPen"
    using pressure_mode_decision [of pressureOptions ptsPen "Num 0.5" "Num 2.5"] by blast
  have b: "\<not> usePressure pressureOptions ptsBinary"
    using pressure_mode_decision [of pressureOptions ptsBinary "Num 0.5" "Num 2.5"]
    by (simp add: ptsBinary_def mkPoint_def)
  have c: "\<not> usePressure defaultOptions ptsPen"
    using pressure_mode_decision [of defaultOptions ptsPen "Num 0.5" "Num 2.5"]
    by (simp add: defaultOptions_def)
  have "calculateWidths pressureOptions ptsPen (Num 0.5) (Num 2.5) = [Num 1, Num 2.5]"
    using a pressure_mode_decision [of pressureOptions ptsPen "Num 0.5" "Num 2.5"]
    by (simp add: ptsPen_def mkPoint_def pressureNum_def jsub_def)
  with a b c show ?thesis by simp
qed

subsection \<open>The Width Modulator over an arbitrary arithmetic\<close>

lemma widthsLoopA_exact:
  "widthsLoopA exactArith os ps minW maxW useP i ws lv = widthsLoop os ps minW maxW useP i ws lv"
proof (induction os ps minW maxW useP i ws lv rule: widthsLoop.induct)
  case (1 os ps minW maxW useP i ws lv)
  have p: "pressureWidthA exactArith minW maxW q = pressureWidth minW maxW q" for q
    by (simp add: pressureWidthA_def pressureWidth_def exactArith_def)
  have v: "instantVelocityA exactArith ps i lv = instantVelocity ps i lv"
    by (simp add: instantVelocityA_def instantVelocity_def exactArith_def Let_def cong: if_cong)
  have f: "filterVelocityA exactArith os x y = filterVelocity os x y" for x y
    by (simp add: filterVelocityA_def filterVelocity_def exactArith_def)
  have w: "velocityWidthA exactArith minW maxW x = velocityWidth minW maxW x" for x
    by (simp add: velocityWidthA_def velocityWidth_def exactArith_def)
  show ?case
  proof (cases "i < length ps")
    case False
    then show ?thesis
      by (subst widthsLoopA.simps, subst widthsLoop.simps) simp
  next
    case True
    show ?thesis
    proof (cases useP)
      case True
      with \<open>i < length ps\<close> "1.IH"(1) show ?thesis
        by (subst widthsLoopA.simps, subst widthsLoop.simps) (simp add: p)
    next
      case False
      with \<open>i < length ps\<close> "1.IH"(2) [OF \<open>i < length ps\<close> False refl refl] show ?thesis
        by (subst widthsLoopA.simps, subst widthsLoop.simps) (simp add: Let_def v f w)
    qed
  qed
qed

lemma calculateWidthsA_exact:
  "calculateWidthsA exactArith os ps minW maxW = calculateWidths os ps minW maxW"
  by (simp add: calculateWidthsA_def calculateWidths_def widthsLoopA_exact)

lemma widthsLoopA_length:
  "length (widthsLoopA ar os ps minW maxW useP i ws lv) = length ws + (length ps - i)"
proof (induction ar os ps minW maxW useP i ws lv rule: widthsLoopA.induct)
  case (1 ar os ps minW maxW useP i ws lv)
  show ?case
  proof (cases "i < length ps")
    case False
    then show ?thesis by (subst widthsLoopA.simps) simp
  next
    case True
    show ?thesis
    proof (cases useP)
      case True
      with \<open>i < length ps\<close> "1.IH"(1) show ?thesis
        by (subst widthsLoopA.simps) simp
    next
      case False
      with \<open>i < length ps\<close> "1.IH"(2) show ?thesis
        by (subst widthsLoopA.simps) (simp add: Let_def)
    qed
  qed
qed

lemma calculateWidthsA_length: "length (calculateWidthsA ar os ps minW maxW) = length ps"
  by (simp add: calculateWidthsA_def widthsLoopA_length)

lemma widthsLoopA_pressure:
  "useP \<Longrightarrow> i \<le> length ps \<Longrightarrow>
   widthsLoopA ar os ps minW maxW useP i ws lv = ws @ map (pressureWidthA ar minW maxW) (drop i ps)"
proof (induction ar os ps minW maxW useP i ws lv rule: widthsLoopA.induct)
  case (1 ar os ps minW maxW useP i ws lv)
  show ?case
  proof (cases "i < length ps")
    case False
    then show ?thesis by (subst widthsLoopA.simps) simp
  next
    case True
    have "drop i ps = ps ! i # drop (i + 1) ps"
      using True by (simp add: Cons_nth_drop_Suc)
    then show ?thesis
      using "1.IH"(1) [OF True "1.prems"(1) "1.prems"(1)] True "1.prems"(1)
      by (subst widthsLoopA.simps) simp
  qed
qed

lemma clamp_inRangeOrNaN:
  assumes "\<not> jlt hi lo" and "lo \<noteq> NaN" and "hi \<noteq> NaN"
  shows "inRangeOrNaN lo hi (jmax lo (jmin hi x))"
  using assms
  by (cases lo; cases hi; cases x) (auto simp: inRangeOrNaN_def inRange_def jmax_def jmin_def)

lemma widthsLoopA_velocity_clamped:
  "\<not> jlt maxW minW \<Longrightarrow> minW \<noteq> NaN \<Longrightarrow> maxW \<noteq> NaN \<Longrightarrow> \<not> useP \<Longrightarrow>
   list_all (inRangeOrNaN minW maxW) ws \<Longrightarrow>
   list_all (inRangeOrNaN minW maxW) (widthsLoopA ar os ps minW maxW useP i ws lv)"
proof (induction ar os ps minW maxW useP i ws lv rule: widthsLoopA.induct)
  case (1 ar os ps minW maxW useP i ws lv)
  show ?case
  proof (cases "i < length ps")
    case False
    with "1.prems" show ?thesis by (subst widthsLoopA.simps) simp
  next
    case True
    let ?lv' = "filterVelocityA ar os (instantVelocityA ar ps i lv) lv"
    have "inRangeOrNaN minW maxW (velocityWidthA ar minW maxW ?lv')"
      unfolding velocityWidthA_def using "1.prems"(1-3) by (rule clamp_inRangeOrNaN)
    with "1.prems" have "list_all (inRangeOrNaN minW maxW) (ws @ [velocityWidthA ar minW maxW ?lv'])"
      by simp
    from "1.IH"(2) [OF True "1.prems"(4) refl refl "1.prems"(1-4) this] True "1.prems"(4)
    show ?thesis
      by (subst widthsLoopA.simps) (simp add: Let_def)
  qed
qed

subsection \<open>The two arithmetics obey the laws\<close>

lemma maxDouble_pos: "0 < maxDouble"
  by (simp add: maxDouble_def)

lemma maxDouble_gt_1: "1 < maxDouble"
  by (simp add: maxDouble_def)

lemma maxDouble_gt_15: "15 / 10 < maxDouble"
  by (simp add: maxDouble_def)

lemma overflow_NaN: "overflow a = NaN \<longleftrightarrow> a = NaN"
  by (cases a) simp_all

lemma overflow_nonneg: "nonneg a \<Longrightarrow> nonneg (overflow a)"
  using maxDouble_pos by (cases a) simp_all

lemma overflow_machineVal: "machineVal overflowArith (overflow a)"
  by (cases a) (auto simp: machineVal_def overflowArith_def)

lemma jsub_not_NaN: "jsub (Num a) (Num b) \<noteq> NaN"
  by (simp add: jsub_def)

lemma jsub_nonneg_not_NaN: "nonneg b \<Longrightarrow> jsub (Num a) b \<noteq> NaN"
  by (cases b) (simp_all add: jsub_def)

lemma hypot_nonneg: "a \<noteq> NaN \<Longrightarrow> b \<noteq> NaN \<Longrightarrow> nonneg (hypot a b)"
  by (cases a; cases b) (simp_all add: isInf_def)

lemma jdiv_nonneg: "nonneg a \<Longrightarrow> posfin b \<Longrightarrow> nonneg (jdiv a b)"
  by (cases a; cases b) simp_all

lemma jmul_nonneg: "nonneg a \<Longrightarrow> posfin b \<Longrightarrow> nonneg (jmul a b)"
  by (cases a; cases b) (simp_all add: jinf_def)

lemma jadd_nonneg: "nonneg a \<Longrightarrow> nonneg b \<Longrightarrow> nonneg (jadd a b)"
  by (cases a; cases b) simp_all

lemma floatLaws_exact: "floatLaws exactArith"
  unfolding floatLaws_def exactArith_def
  by (simp add: machineVal_def jsub_not_NaN jsub_nonneg_not_NaN hypot_nonneg jdiv_nonneg
      jmul_nonneg jadd_nonneg jsub_def split: jsnum.splits)

lemma floatLaws_overflow: "floatLaws overflowArith"
proof -
  have a: "finite_num (overflow (jsub (Num a) (Num b)))"
    if "\<bar>a\<bar> \<le> maxDouble" "\<bar>b\<bar> \<le> maxDouble" "0 \<le> a" "0 \<le> b" for a b
    using that by (simp add: jsub_def)
  have b: "posfin (overflow (jsub (Num 1) (Num w)))" if "0 < w" "w < 1" for w
    using that maxDouble_gt_1 by (simp add: jsub_def)
  have m: "machine overflowArith 0" "machine overflowArith 1" "machine overflowArith 1.5"
    using maxDouble_pos maxDouble_gt_1 maxDouble_gt_15 by (simp_all add: overflowArith_def)
  have c: "machineVal overflowArith (addOp overflowArith x y)"
    "machineVal overflowArith (subOp overflowArith x y)"
    "machineVal overflowArith (mulOp overflowArith x y)"
    "machineVal overflowArith (divOp overflowArith x y)"
    "machineVal overflowArith (hypotOp overflowArith x y)" for x y
    using overflow_machineVal by (simp_all add: overflowArith_def)
  have s: "subOp overflowArith (Num x) (Num y) \<noteq> NaN" for x y
    by (simp add: overflowArith_def overflow_NaN jsub_not_NaN)
  have f: "finite_num (subOp overflowArith (Num x) (Num y))"
    if "machine overflowArith x" "machine overflowArith y" "0 \<le> x" "0 \<le> y" for x y
    using that a [of x y] by (simp add: overflowArith_def)
  have p: "posfin (subOp overflowArith (Num 1) (Num w))" if "0 < w" "w < 1" for w
    using that b by (simp add: overflowArith_def)
  have n: "subOp overflowArith (Num x) y \<noteq> NaN" if "nonneg y" for x y
    using that by (simp add: overflowArith_def overflow_NaN jsub_nonneg_not_NaN)
  have h: "nonneg (hypotOp overflowArith x y)" if "x \<noteq> NaN" "y \<noteq> NaN" for x y
    using that by (simp add: overflowArith_def overflow_nonneg hypot_nonneg)
  have d: "nonneg (divOp overflowArith x y)" "nonneg (mulOp overflowArith x y)"
    if "nonneg x" "posfin y" for x y
    using that by (simp_all add: overflowArith_def overflow_nonneg jdiv_nonneg jmul_nonneg)
  have e: "nonneg (addOp overflowArith x y)" if "nonneg x" "nonneg y" for x y
    using that by (simp add: overflowArith_def overflow_nonneg jadd_nonneg)
  show ?thesis
    unfolding floatLaws_def using m by (simp add: c s f p n h d e)
qed

subsection \<open>No width is NaN\<close>

lemma floatLaws_closed:
  assumes "floatLaws ar" and "machineVal ar a" and "machineVal ar b"
  shows "machineVal ar (addOp ar a b)" and "machineVal ar (subOp ar a b)"
    and "machineVal ar (mulOp ar a b)" and "machineVal ar (divOp ar a b)"
    and "machineVal ar (hypotOp ar a b)"
proof -
  from assms(1) have "\<forall>a b. machineVal ar a \<and> machineVal ar b \<longrightarrow>
         machineVal ar (addOp ar a b) \<and> machineVal ar (subOp ar a b) \<and>
         machineVal ar (mulOp ar a b) \<and> machineVal ar (divOp ar a b) \<and>
         machineVal ar (hypotOp ar a b)"
    unfolding floatLaws_def by (elim conjE)
  with assms(2,3) show "machineVal ar (addOp ar a b)" and "machineVal ar (subOp ar a b)"
    and "machineVal ar (mulOp ar a b)" and "machineVal ar (divOp ar a b)"
    and "machineVal ar (hypotOp ar a b)"
    by simp_all
qed

lemma floatLaws_constants:
  assumes "floatLaws ar"
  shows "machineVal ar (Num 0)" and "machineVal ar (Num 1)" and "machineVal ar (Num (15 / 10))"
proof -
  from assms have "machine ar 0" "machine ar 1" "machine ar 1.5"
    unfolding floatLaws_def by simp_all
  then show "machineVal ar (Num 0)" and "machineVal ar (Num 1)"
    and "machineVal ar (Num (15 / 10))"
    by (simp_all add: machineVal_def)
qed

lemma floatLaws_sub:
  assumes "floatLaws ar" and "machine ar a" and "machine ar b"
  shows "subOp ar (Num a) (Num b) \<noteq> NaN"
    and "0 \<le> a \<Longrightarrow> 0 \<le> b \<Longrightarrow> finite_num (subOp ar (Num a) (Num b))"
proof -
  from assms(1) have "\<forall>a b. machine ar a \<and> machine ar b \<longrightarrow> subOp ar (Num a) (Num b) \<noteq> NaN"
    unfolding floatLaws_def by (elim conjE)
  with assms(2,3) show "subOp ar (Num a) (Num b) \<noteq> NaN" by simp
  from assms(1) have "\<forall>a b. machine ar a \<and> machine ar b \<and> 0 \<le> a \<and> 0 \<le> b \<longrightarrow>
         finite_num (subOp ar (Num a) (Num b))"
    unfolding floatLaws_def by (elim conjE)
  with assms(2,3) show "0 \<le> a \<Longrightarrow> 0 \<le> b \<Longrightarrow> finite_num (subOp ar (Num a) (Num b))" by simp
qed

lemma floatLaws_weight:
  assumes "floatLaws ar" and "machine ar w" and "0 < w" and "w < 1"
  shows "posfin (subOp ar (Num 1) (Num w))"
proof -
  from assms(1) have "\<forall>w. machine ar w \<and> 0 < w \<and> w < 1 \<longrightarrow> posfin (subOp ar (Num 1) (Num w))"
    unfolding floatLaws_def by (elim conjE)
  with assms(2-4) show ?thesis by simp
qed

lemma floatLaws_sub_nonneg:
  assumes "floatLaws ar" and "machine ar a" and "machineVal ar b" and "nonneg b"
  shows "subOp ar (Num a) b \<noteq> NaN"
proof -
  from assms(1) have "\<forall>a b. machine ar a \<and> machineVal ar b \<and> nonneg b \<longrightarrow>
      subOp ar (Num a) b \<noteq> NaN"
    unfolding floatLaws_def by (elim conjE)
  with assms(2-4) show ?thesis by simp
qed

lemma floatLaws_nonneg:
  assumes "floatLaws ar" and "machineVal ar a" and "machineVal ar b"
  shows "a \<noteq> NaN \<Longrightarrow> b \<noteq> NaN \<Longrightarrow> nonneg (hypotOp ar a b)"
    and "nonneg a \<Longrightarrow> posfin b \<Longrightarrow> nonneg (divOp ar a b)"
    and "nonneg a \<Longrightarrow> posfin b \<Longrightarrow> nonneg (mulOp ar a b)"
    and "nonneg a \<Longrightarrow> nonneg b \<Longrightarrow> nonneg (addOp ar a b)"
proof -
  from assms(1) have "\<forall>a b. machineVal ar a \<and> machineVal ar b \<and> a \<noteq> NaN \<and> b \<noteq> NaN \<longrightarrow>
         nonneg (hypotOp ar a b)"
    unfolding floatLaws_def by (elim conjE)
  with assms(2,3) show "a \<noteq> NaN \<Longrightarrow> b \<noteq> NaN \<Longrightarrow> nonneg (hypotOp ar a b)" by simp
  from assms(1) have "\<forall>a b. machineVal ar a \<and> machineVal ar b \<and> nonneg a \<and> posfin b \<longrightarrow>
         nonneg (divOp ar a b)"
    unfolding floatLaws_def by (elim conjE)
  with assms(2,3) show "nonneg a \<Longrightarrow> posfin b \<Longrightarrow> nonneg (divOp ar a b)" by simp
  from assms(1) have "\<forall>a b. machineVal ar a \<and> machineVal ar b \<and> nonneg a \<and> posfin b \<longrightarrow>
         nonneg (mulOp ar a b)"
    unfolding floatLaws_def by (elim conjE)
  with assms(2,3) show "nonneg a \<Longrightarrow> posfin b \<Longrightarrow> nonneg (mulOp ar a b)" by simp
  from assms(1) have "\<forall>a b. machineVal ar a \<and> machineVal ar b \<and> nonneg a \<and> nonneg b \<longrightarrow>
         nonneg (addOp ar a b)"
    unfolding floatLaws_def by (elim conjE)
  with assms(2,3) show "nonneg a \<Longrightarrow> nonneg b \<Longrightarrow> nonneg (addOp ar a b)" by simp
qed

lemma finiteIn_iff: "finiteIn ar a \<longleftrightarrow> (\<exists>r. a = Num r \<and> machine ar r)"
  by (cases a) (simp_all add: finiteIn_def)

lemma positive_posfin: "finite_num t \<Longrightarrow> jgt t (Num 0) \<Longrightarrow> posfin t"
  by (cases t) (simp_all add: jgt_def)

lemma instantVelocityA_nonneg:
  assumes laws: "floatLaws ar" and pts: "list_all (soundPoint ar) ps" and i: "i < length ps"
    and lv: "nonneg lv" "machineVal ar lv"
  shows "nonneg (instantVelocityA ar ps i lv) \<and> machineVal ar (instantVelocityA ar ps i lv)"
proof (cases "0 < i")
  case False
  then show ?thesis
    using floatLaws_constants(1) [OF laws] by (simp add: instantVelocityA_def)
next
  case True
  with pts i have "soundPoint ar (ps ! (i - Suc 0))" "soundPoint ar (ps ! i)"
    by (simp_all add: list_all_length)
  then have s: "finiteIn ar (xc (ps ! (i - Suc 0)))" "finiteIn ar (yc (ps ! (i - Suc 0)))"
    "finiteIn ar (time (ps ! (i - Suc 0)))" "nonneg (time (ps ! (i - Suc 0)))"
    "finiteIn ar (xc (ps ! i))" "finiteIn ar (yc (ps ! i))"
    "finiteIn ar (time (ps ! i))" "nonneg (time (ps ! i))"
    by (simp_all add: soundPoint_def)
  from s(1) obtain x0 where x0: "xc (ps ! (i - Suc 0)) = Num x0" "machine ar x0"
    unfolding finiteIn_iff by blast
  from s(2) obtain y0 where y0: "yc (ps ! (i - Suc 0)) = Num y0" "machine ar y0"
    unfolding finiteIn_iff by blast
  from s(3) obtain t0 where t0: "time (ps ! (i - Suc 0)) = Num t0" "machine ar t0"
    unfolding finiteIn_iff by blast
  from s(5) obtain x1 where x1: "xc (ps ! i) = Num x1" "machine ar x1"
    unfolding finiteIn_iff by blast
  from s(6) obtain y1 where y1: "yc (ps ! i) = Num y1" "machine ar y1"
    unfolding finiteIn_iff by blast
  from s(7) obtain t1 where t1: "time (ps ! i) = Num t1" "machine ar t1"
    unfolding finiteIn_iff by blast
  note c = x0(1) y0(1) t0(1) x1(1) y1(1) t1(1)
  have m: "machine ar x0" "machine ar y0" "machine ar t0" "0 \<le> t0"
    "machine ar x1" "machine ar y1" "machine ar t1" "0 \<le> t1"
    using x0 y0 t0 x1 y1 t1 s(4,8) by simp_all
  let ?dx = "subOp ar (Num x1) (Num x0)"
  let ?dy = "subOp ar (Num y1) (Num y0)"
  let ?t = "subOp ar (Num t1) (Num t0)"
  let ?d = "hypotOp ar ?dx ?dy"
  have mv: "machineVal ar (Num x0)" "machineVal ar (Num y0)" "machineVal ar (Num t0)"
    "machineVal ar (Num x1)" "machineVal ar (Num y1)" "machineVal ar (Num t1)"
    using m by (simp_all add: machineVal_def)
  have vdx: "machineVal ar ?dx" and vdy: "machineVal ar ?dy" and vt: "machineVal ar ?t"
    using floatLaws_closed(2) [OF laws] mv by simp_all
  have ndx: "?dx \<noteq> NaN" and ndy: "?dy \<noteq> NaN"
    using floatLaws_sub(1) [OF laws] m by simp_all
  have d: "nonneg ?d" "machineVal ar ?d"
    using floatLaws_nonneg(1) [OF laws vdx vdy ndx ndy] floatLaws_closed(5) [OF laws vdx vdy]
    by simp_all
  have ft: "finite_num ?t"
    using floatLaws_sub(2) [OF laws m(7) m(3) m(8) m(4)] .
  have "nonneg (divOp ar ?d ?t) \<and> machineVal ar (divOp ar ?d ?t)" if "jgt ?t (Num 0)"
    using floatLaws_nonneg(2) [OF laws d(2) vt d(1) positive_posfin [OF ft that]]
      floatLaws_closed(4) [OF laws d(2) vt] by simp
  then show ?thesis
    using True lv by (simp add: instantVelocityA_def c Let_def)
qed

lemma filterVelocityA_nonneg:
  assumes laws: "floatLaws ar" and w: "innerWeight ar os"
    and v: "nonneg v" "machineVal ar v" and lv: "nonneg lv" "machineVal ar lv"
  shows "nonneg (filterVelocityA ar os v lv) \<and> machineVal ar (filterVelocityA ar os v lv)"
proof -
  from w obtain r where r: "velocityFilterWeight os = Num r" "machine ar r" "0 < r" "r < 1"
    by (auto simp: innerWeight_def finiteIn_iff jgt_def)
  let ?c = "subOp ar (Num 1) (Num r)"
  have vr: "machineVal ar (Num r)" "posfin (Num r)"
    using r by (simp_all add: machineVal_def)
  have c: "posfin ?c" "machineVal ar ?c"
    using floatLaws_weight [OF laws r(2-4)]
      floatLaws_closed(2) [OF laws floatLaws_constants(2) [OF laws] vr(1)] by simp_all
  have a: "nonneg (mulOp ar v ?c)" "machineVal ar (mulOp ar v ?c)"
    using floatLaws_nonneg(3) [OF laws v(2) c(2) v(1) c(1)] floatLaws_closed(3) [OF laws v(2) c(2)]
    by simp_all
  have b: "nonneg (mulOp ar lv (Num r))" "machineVal ar (mulOp ar lv (Num r))"
    using floatLaws_nonneg(3) [OF laws lv(2) vr(1) lv(1) vr(2)]
      floatLaws_closed(3) [OF laws lv(2) vr(1)] by simp_all
  show ?thesis
    using floatLaws_nonneg(4) [OF laws a(2) b(2) a(1) b(1)] floatLaws_closed(1) [OF laws a(2) b(2)]
    by (simp add: filterVelocityA_def r(1))
qed

lemma clamp_finite_num: "x \<noteq> NaN \<Longrightarrow> finite_num (jmax (Num a) (jmin (Num b) x))"
  by (cases x) (simp_all add: jmax_def jmin_def)

lemma velocityWidthA_finite:
  assumes laws: "floatLaws ar" and "finiteIn ar minW" and "finiteIn ar maxW"
    and lv: "nonneg lv" "machineVal ar lv"
  shows "finite_num (velocityWidthA ar minW maxW lv)"
proof -
  from assms(2,3) obtain a b where ab: "minW = Num a" "maxW = Num b" "machine ar b"
    by (auto simp: finiteIn_iff)
  let ?m = "mulOp ar lv (Num (15 / 10))"
  have "posfin (Num (15 / 10))" by simp
  then have m: "nonneg ?m" "machineVal ar ?m"
    using floatLaws_nonneg(3) [OF laws lv(2) floatLaws_constants(3) [OF laws] lv(1)]
      floatLaws_closed(3) [OF laws lv(2) floatLaws_constants(3) [OF laws]] by simp_all
  have "subOp ar (Num b) ?m \<noteq> NaN"
    using floatLaws_sub_nonneg [OF laws ab(3) m(2) m(1)] .
  then show ?thesis
    using clamp_finite_num by (simp add: velocityWidthA_def ab)
qed

lemma widthsLoopA_finite:
  "floatLaws ar \<Longrightarrow> list_all (soundPoint ar) ps \<Longrightarrow> innerWeight ar os \<Longrightarrow>
   finiteIn ar minW \<Longrightarrow> finiteIn ar maxW \<Longrightarrow> \<not> useP \<Longrightarrow>
   nonneg lv \<Longrightarrow> machineVal ar lv \<Longrightarrow> list_all finite_num ws \<Longrightarrow>
   list_all finite_num (widthsLoopA ar os ps minW maxW useP i ws lv)"
proof (induction ar os ps minW maxW useP i ws lv rule: widthsLoopA.induct)
  case (1 ar os ps minW maxW useP i ws lv)
  show ?case
  proof (cases "i < length ps")
    case False
    with "1.prems" show ?thesis by (subst widthsLoopA.simps) simp
  next
    case True
    let ?v = "instantVelocityA ar ps i lv"
    let ?lv' = "filterVelocityA ar os ?v lv"
    have v: "nonneg ?v" "machineVal ar ?v"
      using instantVelocityA_nonneg [OF "1.prems"(1,2) True "1.prems"(7,8)] by simp_all
    have lv': "nonneg ?lv'" "machineVal ar ?lv'"
      using filterVelocityA_nonneg [OF "1.prems"(1,3) v "1.prems"(7,8)] by simp_all
    have "finite_num (velocityWidthA ar minW maxW ?lv')"
      using velocityWidthA_finite [OF "1.prems"(1,4,5) lv'] .
    with "1.prems"(9) have "list_all finite_num (ws @ [velocityWidthA ar minW maxW ?lv'])"
      by simp
    from "1.IH"(2) [OF True "1.prems"(6) refl refl "1.prems"(1-6) lv' this] True "1.prems"(6)
    show ?thesis
      by (subst widthsLoopA.simps) (simp add: Let_def)
  qed
qed

lemma calculateWidthsA_finite:
  assumes "floatLaws ar" and "list_all (soundPoint ar) ps" and "innerWeight ar os"
    and "finiteIn ar minW" and "finiteIn ar maxW" and "\<not> usePressure os ps"
  shows "list_all finite_num (calculateWidthsA ar os ps minW maxW)"
  unfolding calculateWidthsA_def
  using assms floatLaws_constants(1) [OF assms(1)]
  by (intro widthsLoopA_finite) simp_all

subsection \<open>The recurrence and the division\<close>

lemma step_matches_specA:
  "filterVelocityA ar os (instantVelocityA ar ps i (carriedA ar deltaNotPositive os ps i))
       (carriedA ar deltaNotPositive os ps i) = specFilteredA ar deltaNotPositive os ps i"
  by (cases i)
     (simp_all add: carriedA_def filterVelocityA_def instantVelocityA_def
        deltaNotPositive_def Let_def)

lemma widthsLoopA_velocity:
  "\<not> useP \<Longrightarrow> i \<le> length ps \<Longrightarrow> lv = carriedA ar deltaNotPositive os ps i \<Longrightarrow>
   widthsLoopA ar os ps minW maxW useP i ws lv =
     ws @ map (\<lambda>k. clamp (subOp ar maxW (mulOp ar (specFilteredA ar deltaNotPositive os ps k)
                                               (Num 1.5))) minW maxW)
            [i..<length ps]"
proof (induction ar os ps minW maxW useP i ws lv rule: widthsLoopA.induct)
  case (1 ar os ps minW maxW useP i ws lv)
  show ?case
  proof (cases "i < length ps")
    case False
    then show ?thesis by (subst widthsLoopA.simps) simp
  next
    case True
    let ?v = "instantVelocityA ar ps i lv"
    let ?lv' = "filterVelocityA ar os ?v lv"
    have lv': "?lv' = specFilteredA ar deltaNotPositive os ps i"
      using "1.prems"(3) step_matches_specA by simp
    then have next_carried: "?lv' = carriedA ar deltaNotPositive os ps (i + 1)"
      by (simp add: carriedA_def)
    have "widthsLoopA ar os ps minW maxW useP (i + 1) (ws @ [velocityWidthA ar minW maxW ?lv']) ?lv' =
          (ws @ [velocityWidthA ar minW maxW ?lv']) @
            map (\<lambda>k. clamp (subOp ar maxW (mulOp ar (specFilteredA ar deltaNotPositive os ps k)
                                                      (Num 1.5))) minW maxW)
              [i + 1..<length ps]"
      using "1.IH"(2) [OF True "1.prems"(1) refl refl "1.prems"(1) _ next_carried] True by simp
    moreover have "[i..<length ps] = i # [i + 1..<length ps]"
      using True by (simp add: upt_conv_Cons)
    ultimately show ?thesis
      using True "1.prems"(1) lv'
      by (subst widthsLoopA.simps) (simp add: Let_def velocityWidthA_def clamp_def)
  qed
qed

lemma calculateWidthsA_velocity:
  "\<not> usePressure os ps \<Longrightarrow>
   calculateWidthsA ar os ps minW maxW = specVelocityWidthsA ar deltaNotPositive os ps minW maxW"
  by (simp add: calculateWidthsA_def widthsLoopA_velocity carriedA_def specVelocityWidthsA_def)

lemma instantVelocityA_division:
  assumes "agreesOnPositive ar d"
  shows "instantVelocityA (ar\<lparr>divOp := d\<rparr>) ps i lv = instantVelocityA ar ps i lv"
  using assms by (simp add: instantVelocityA_def agreesOnPositive_def Let_def)

lemma widthsLoopA_division:
  "agreesOnPositive ar d \<Longrightarrow>
   widthsLoopA (ar\<lparr>divOp := d\<rparr>) os ps minW maxW useP i ws lv =
     widthsLoopA ar os ps minW maxW useP i ws lv"
proof (induction ar os ps minW maxW useP i ws lv rule: widthsLoopA.induct)
  case (1 ar os ps minW maxW useP i ws lv)
  have p: "pressureWidthA (ar\<lparr>divOp := d\<rparr>) minW maxW q = pressureWidthA ar minW maxW q" for q
    by (simp add: pressureWidthA_def)
  have v: "instantVelocityA (ar\<lparr>divOp := d\<rparr>) ps i lv = instantVelocityA ar ps i lv"
    using "1.prems" by (rule instantVelocityA_division)
  have f: "filterVelocityA (ar\<lparr>divOp := d\<rparr>) os x y = filterVelocityA ar os x y" for x y
    by (simp add: filterVelocityA_def)
  have w: "velocityWidthA (ar\<lparr>divOp := d\<rparr>) minW maxW x = velocityWidthA ar minW maxW x" for x
    by (simp add: velocityWidthA_def)
  show ?case
  proof (cases "i < length ps")
    case False
    then show ?thesis
      by (subst widthsLoopA.simps, subst (2) widthsLoopA.simps) simp
  next
    case True
    show ?thesis
    proof (cases useP)
      case True
      with \<open>i < length ps\<close> "1.IH"(1) [OF \<open>i < length ps\<close> True "1.prems"] show ?thesis
        by (subst widthsLoopA.simps, subst (2) widthsLoopA.simps) (simp add: p)
    next
      case False
      with \<open>i < length ps\<close> "1.IH"(2) [OF \<open>i < length ps\<close> False refl refl "1.prems"] show ?thesis
        by (subst widthsLoopA.simps, subst (2) widthsLoopA.simps) (simp add: Let_def v f w)
    qed
  qed
qed

lemma calculateWidthsA_division:
  "agreesOnPositive ar d \<Longrightarrow>
   calculateWidthsA (ar\<lparr>divOp := d\<rparr>) os ps minW maxW = calculateWidthsA ar os ps minW maxW"
  by (simp add: calculateWidthsA_def widthsLoopA_division)

subsection \<open>Instances\<close>

lemma maxDouble_gt_1000: "1000 < maxDouble"
  by (simp add: maxDouble_def)

lemma halfMax_facts: "0 < halfMax" "halfMax \<le> maxDouble" "maxDouble < 2 * halfMax"
  by (simp_all add: halfMax_def maxDouble_def)

lemma tinyTime_facts: "0 < tinyTime" "tinyTime < 1" "maxDouble < 3 / tinyTime"
  by (simp_all add: tinyTime_def maxDouble_def)

lemma overflow_small: "\<bar>a\<bar> \<le> 1000 \<Longrightarrow> overflow (Num a) = Num a"
  using maxDouble_gt_1000 by auto

lemma overflow_halfMax:
  "overflow (Num halfMax) = Num halfMax" "overflow (Num (- halfMax)) = Num (- halfMax)"
  "overflow (Num (2 * halfMax)) = PInf"
  using halfMax_facts by simp_all

lemma overflow_tinyTime: "overflow (Num (3 / tinyTime)) = PInf"
  using tinyTime_facts by simp

lemma jadd_NaN: "jadd a NaN = NaN"
  by (cases a) simp_all

lemma jmul_NaN: "jmul a NaN = NaN"
  by (cases a) simp_all

lemma pts3_overflow_widths:
  "calculateWidthsA overflowArith defaultOptions pts3 (Num 0.5) (Num 2.5) =
     [Num 2.5, Num 2.5, Num 2.05]"
  by (simp add: calculateWidthsA_def usePressure_def defaultOptions_def pts3_def mkPoint_def
      widthsLoopA.simps instantVelocityA_def filterVelocityA_def velocityWidthA_def
      overflowArith_def overflow_small jsub_def jgt_def jmin_def jmax_def Let_def
      del: overflow.simps(1))

lemma ptsFar_overflow_widths:
  "calculateWidthsA overflowArith weightZero ptsFar (Num 0.5) (Num 2.5) =
     [Num 2.5, Num 0.5, NaN]"
  using halfMax_facts
  by (simp add: calculateWidthsA_def usePressure_def defaultOptions_def weightZero_def ptsFar_def
      mkPoint_def widthsLoopA.simps instantVelocityA_def filterVelocityA_def velocityWidthA_def
      overflowArith_def overflow_small overflow_halfMax isInf_def jsub_def jgt_def jmin_def
      jmax_def jinf_def Let_def del: overflow.simps(1))

lemma ptsQuick_overflow_widths:
  "calculateWidthsA overflowArith weightZero ptsQuick (Num 0.5) (Num 2.5) =
     [Num 2.5, Num 0.5, NaN]"
  using tinyTime_facts
  by (simp add: calculateWidthsA_def usePressure_def defaultOptions_def weightZero_def
      ptsQuick_def mkPoint_def widthsLoopA.simps instantVelocityA_def filterVelocityA_def
      velocityWidthA_def overflowArith_def overflow_small overflow_tinyTime jadd_NaN jmul_NaN
      isInf_def jsub_def jgt_def jmin_def jmax_def jinf_def Let_def del: overflow.simps(1))

lemma ptsQuick_overflow_widths_one:
  "calculateWidthsA overflowArith weightOne ptsQuick (Num 0.5) (Num 2.5) = [Num 2.5, NaN, NaN]"
  using tinyTime_facts
  by (simp add: calculateWidthsA_def usePressure_def defaultOptions_def weightOne_def
      ptsQuick_def mkPoint_def widthsLoopA.simps instantVelocityA_def filterVelocityA_def
      velocityWidthA_def overflowArith_def overflow_small overflow_tinyTime jadd_NaN jmul_NaN
      isInf_def jsub_def jgt_def jmin_def jmax_def jinf_def Let_def del: overflow.simps(1))

lemma ptsAges_overflow_widths:
  "calculateWidthsA overflowArith defaultOptions ptsAges (Num 0.5) (Num 2.5) = [Num 2.5, NaN]"
  using halfMax_facts
  by (simp add: calculateWidthsA_def usePressure_def defaultOptions_def ptsAges_def
      mkPoint_def widthsLoopA.simps instantVelocityA_def filterVelocityA_def velocityWidthA_def
      overflowArith_def overflow_small overflow_halfMax isInf_def jsub_def jgt_def jmin_def
      jmax_def jinf_def Let_def del: overflow.simps(1))

subsection \<open>Length and range of the widths\<close>

text \<open>
  C6 (amended): for every input, every configuration and every arithmetic the array
  returned by \<open>calculateWidths\<close> has one element per input point. In velocity mode
  every element is the result of \<open>Math.max(minWidth, Math.min(maxWidth, ...))\<close>, so
  that with \<open>minWidth \<le> maxWidth\<close> it either lies within \<open>[minWidth, maxWidth]\<close>
  or is NaN. In pressure mode every element is
  \<open>minWidth + (maxWidth - minWidth) * pressure\<close> of its point as the arithmetic
  computes it, and nothing clamps it to the interval.
\<close>

theorem widths_length_and_clamp:
  "length (calculateWidthsA ar os ps minW maxW) = length ps \<and>
   (\<not> usePressure os ps \<and> \<not> jlt maxW minW \<and> minW \<noteq> NaN \<and> maxW \<noteq> NaN \<longrightarrow>
      list_all (inRangeOrNaN minW maxW) (calculateWidthsA ar os ps minW maxW)) \<and>
   (usePressure os ps \<longrightarrow>
      calculateWidthsA ar os ps minW maxW =
        map (\<lambda>p. addOp ar minW (mulOp ar (subOp ar maxW minW) (pressureNum p))) ps)"
proof -
  have "list_all (inRangeOrNaN minW maxW) (calculateWidthsA ar os ps minW maxW)"
    if "\<not> usePressure os ps" and "\<not> jlt maxW minW" and "minW \<noteq> NaN" and "maxW \<noteq> NaN"
    unfolding calculateWidthsA_def using that(2-4) that(1)
    by (rule widthsLoopA_velocity_clamped) simp
  moreover have "calculateWidthsA ar os ps minW maxW =
      map (\<lambda>p. addOp ar minW (mulOp ar (subOp ar maxW minW) (pressureNum p))) ps"
    if "usePressure os ps"
    using that widthsLoopA_pressure [of "usePressure os ps" 0 ps ar os minW maxW "[]" "Num 0"]
    by (simp add: calculateWidthsA_def pressureWidthA_def)
  ultimately show ?thesis
    using calculateWidthsA_length by blast
qed

theorem widths_length_and_clamp_witness:
  "\<not> usePressure defaultOptions pts3 \<and>
   length (calculateWidthsA overflowArith defaultOptions pts3 (Num 0.5) (Num 2.5)) = 3 \<and>
   list_all (inRangeOrNaN (Num 0.5) (Num 2.5))
     (calculateWidthsA overflowArith defaultOptions pts3 (Num 0.5) (Num 2.5)) \<and>
   usePressure pressureOptions ptsPen \<and>
   calculateWidthsA overflowArith pressureOptions ptsPen (Num 0.5) (Num 2.5) = [Num 1, Num 2.5]"
proof -
  have v: "\<not> usePressure defaultOptions pts3"
    by (simp add: usePressure_def defaultOptions_def)
  have p: "usePressure pressureOptions ptsPen"
    by (simp add: usePressure_def pressureOptions_def defaultOptions_def ptsPen_def mkPoint_def
        pressureNum_def jgt_def)
  have b: "\<not> jlt (Num 2.5) (Num 0.5)" "Num 0.5 \<noteq> NaN" "Num 2.5 \<noteq> NaN"
    by simp_all
  have "length (calculateWidthsA overflowArith defaultOptions pts3 (Num 0.5) (Num 2.5)) = 3"
    using widths_length_and_clamp [of overflowArith defaultOptions pts3 "Num 0.5" "Num 2.5"]
    by (simp add: pts3_def)
  moreover have "list_all (inRangeOrNaN (Num 0.5) (Num 2.5))
      (calculateWidthsA overflowArith defaultOptions pts3 (Num 0.5) (Num 2.5))"
    using widths_length_and_clamp [of overflowArith defaultOptions pts3 "Num 0.5" "Num 2.5"] v b
    by blast
  moreover have
    "calculateWidthsA overflowArith pressureOptions ptsPen (Num 0.5) (Num 2.5) = [Num 1, Num 2.5]"
    using widths_length_and_clamp [of overflowArith pressureOptions ptsPen "Num 0.5" "Num 2.5"] p
    by (simp add: ptsPen_def mkPoint_def pressureNum_def overflowArith_def overflow_small
        jsub_def del: overflow.simps(1))
  ultimately show ?thesis
    using v p by simp
qed

text \<open>
  The range fails in each of three ways, shown in the arithmetic with the range of the
  doubles, which is exact at these inputs. In velocity mode with \<open>minWidth = 3\<close> and
  \<open>maxWidth = 1\<close> the width of a single point is 3, above \<open>maxWidth\<close>. In pressure
  mode a point with pressure 1.5 gets width 3.5 for the range \<open>[0.5, 2.5]\<close>. In
  velocity mode with filter weight 0 and the points \<open>(-2^1023, 0)\<close>, \<open>(2^1023, 0)\<close>,
  \<open>(2^1023, 0)\<close> at the times 0, 1, 2 the distance of the first two overflows to
  \<open>Infinity\<close>, the filtered velocity becomes \<open>Infinity\<close>, and at the third point
  \<open>Infinity * 0\<close> makes it NaN: the third width is NaN.
\<close>

theorem widths_outside_range_counterexample:
  "calculateWidthsA overflowArith defaultOptions [mkPoint 0 0 0 0.5] (Num 3) (Num 1) = [Num 3] \<and>
   jlt (Num 1) (Num 3) \<and>
   calculateWidthsA overflowArith pressureOptions ptsOverPressure (Num 0.5) (Num 2.5) =
     [Num 1.5, Num 3.5] \<and>
   jlt (Num 2.5) (Num 3.5) \<and>
   \<not> jlt (Num 2.5) (Num 0.5) \<and> \<not> usePressure weightZero ptsFar \<and>
   calculateWidthsA overflowArith weightZero ptsFar (Num 0.5) (Num 2.5) =
     [Num 2.5, Num 0.5, NaN] \<and>
   \<not> inRange (Num 0.5) (Num 2.5) NaN"
proof -
  have "calculateWidthsA overflowArith defaultOptions [mkPoint 0 0 0 0.5] (Num 3) (Num 1) = [Num 3]"
    by (simp add: calculateWidthsA_def usePressure_def defaultOptions_def mkPoint_def
        widthsLoopA.simps instantVelocityA_def filterVelocityA_def velocityWidthA_def
        overflowArith_def overflow_small jsub_def jgt_def jmin_def jmax_def Let_def
        del: overflow.simps(1))
  moreover have
    "calculateWidthsA overflowArith pressureOptions ptsOverPressure (Num 0.5) (Num 2.5) =
       [Num 1.5, Num 3.5]"
    by (simp add: calculateWidthsA_def usePressure_def defaultOptions_def pressureOptions_def
        ptsOverPressure_def mkPoint_def pressureNum_def pressureWidthA_def widthsLoopA.simps
        overflowArith_def overflow_small jsub_def jgt_def del: overflow.simps(1))
  moreover have "\<not> usePressure weightZero ptsFar"
    by (simp add: usePressure_def weightZero_def defaultOptions_def)
  ultimately show ?thesis
    using ptsFar_overflow_widths by (simp add: inRange_def)
qed

subsection \<open>Arbitrary timestamps\<close>

text \<open>
  C10 (amended): in velocity mode, in every arithmetic that obeys \<open>floatLaws\<close>, for
  points with finite coordinates and finite timestamps that are not negative, in any
  order, a filter weight strictly between 0 and 1 and finite width bounds,
  \<open>calculateWidths\<close> returns one finite width per point. The widths are those of the
  recurrence in which the instantaneous velocity is the previous filtered velocity
  whenever the time delta is not greater than 0, and they do not depend on what a
  division by a divisor that is not greater than 0 would give: no such division takes
  place.
\<close>

theorem velocity_widths_defined:
  assumes "floatLaws ar" and "list_all (soundPoint ar) ps" and "innerWeight ar os"
    and "finiteIn ar minW" and "finiteIn ar maxW" and "\<not> usePressure os ps"
  shows "length (calculateWidthsA ar os ps minW maxW) = length ps \<and>
         list_all finite_num (calculateWidthsA ar os ps minW maxW) \<and>
         calculateWidthsA ar os ps minW maxW =
           specVelocityWidthsA ar deltaNotPositive os ps minW maxW \<and>
         (\<forall>d. agreesOnPositive ar d \<longrightarrow>
            calculateWidthsA (ar\<lparr>divOp := d\<rparr>) os ps minW maxW =
              calculateWidthsA ar os ps minW maxW)"
  using calculateWidthsA_length [of ar os ps minW maxW] calculateWidthsA_finite [OF assms]
    calculateWidthsA_velocity [OF assms(6), of ar minW maxW] calculateWidthsA_division
  by simp

theorem velocity_widths_defined_witness:
  "floatLaws overflowArith \<and> list_all (soundPoint overflowArith) pts3 \<and>
   innerWeight overflowArith defaultOptions \<and> agreesOnPositive overflowArith positiveDiv \<and>
   length (calculateWidthsA overflowArith defaultOptions pts3 (Num 0.5) (Num 2.5)) = 3 \<and>
   list_all finite_num (calculateWidthsA overflowArith defaultOptions pts3 (Num 0.5) (Num 2.5)) \<and>
   calculateWidthsA overflowArith defaultOptions pts3 (Num 0.5) (Num 2.5) =
     specVelocityWidthsA overflowArith deltaNotPositive defaultOptions pts3 (Num 0.5) (Num 2.5) \<and>
   calculateWidthsA (overflowArith\<lparr>divOp := positiveDiv\<rparr>) defaultOptions pts3 (Num 0.5) (Num 2.5) =
     calculateWidthsA overflowArith defaultOptions pts3 (Num 0.5) (Num 2.5)"
proof -
  have m: "machine overflowArith a" if "\<bar>a\<bar> \<le> 1000" for a
    using that maxDouble_gt_1000 by (simp add: overflowArith_def)
  have h: "list_all (soundPoint overflowArith) pts3" "innerWeight overflowArith defaultOptions"
    "finiteIn overflowArith (Num 0.5)" "finiteIn overflowArith (Num 2.5)"
    "\<not> usePressure defaultOptions pts3"
    by (simp_all add: pts3_def mkPoint_def soundPoint_def innerWeight_def finiteIn_def m
        defaultOptions_def usePressure_def jgt_def)
  have d: "agreesOnPositive overflowArith positiveDiv"
    by (simp add: agreesOnPositive_def positiveDiv_def overflowArith_def)
  note t = velocity_widths_defined [OF floatLaws_overflow h]
  from t have "length (calculateWidthsA overflowArith defaultOptions pts3 (Num 0.5) (Num 2.5)) =
      length pts3" ..
  then have l: "length (calculateWidthsA overflowArith defaultOptions pts3 (Num 0.5) (Num 2.5)) = 3"
    by (simp add: pts3_def)
  from t d have "calculateWidthsA (overflowArith\<lparr>divOp := positiveDiv\<rparr>) defaultOptions pts3
      (Num 0.5) (Num 2.5) = calculateWidthsA overflowArith defaultOptions pts3 (Num 0.5) (Num 2.5)"
    by blast
  with t l d floatLaws_overflow h(1,2) show ?thesis
    by blast
qed

text \<open>
  The provisos are needed: a width that is not a number comes out of finite input in
  the arithmetic with the range of the doubles. With filter weight 0 and the points
  \<open>(0, 0)\<close>, \<open>(3, 0)\<close>, \<open>(4, 0)\<close> at the times 0, \<open>2^-1030\<close>, 1 the quotient
  \<open>3 / 2^-1030\<close> overflows to \<open>Infinity\<close> and \<open>Infinity * 0\<close> makes the filtered
  velocity NaN at the third point; with filter weight 1 the same product makes it NaN
  at the second point already. With the default weight 0.7 and the points
  \<open>(-2^1023, 0)\<close> and \<open>(2^1023, 0)\<close> at the times \<open>-2^1023\<close> and \<open>2^1023\<close> both the
  distance and the time delta overflow to \<open>Infinity\<close> and their quotient is NaN.
\<close>

theorem velocity_width_not_a_number_counterexample:
  "list_all finitePoint ptsQuick \<and> \<not> usePressure weightZero ptsQuick \<and>
   calculateWidthsA overflowArith weightZero ptsQuick (Num 0.5) (Num 2.5) =
     [Num 2.5, Num 0.5, NaN] \<and>
   \<not> usePressure weightOne ptsQuick \<and>
   calculateWidthsA overflowArith weightOne ptsQuick (Num 0.5) (Num 2.5) = [Num 2.5, NaN, NaN] \<and>
   list_all finitePoint ptsAges \<and> \<not> usePressure defaultOptions ptsAges \<and>
   calculateWidthsA overflowArith defaultOptions ptsAges (Num 0.5) (Num 2.5) = [Num 2.5, NaN] \<and>
   \<not> finite_num NaN"
proof -
  have "list_all finitePoint ptsQuick" "list_all finitePoint ptsAges"
    by (simp_all add: ptsQuick_def ptsAges_def mkPoint_def finitePoint_def)
  moreover have "\<not> usePressure weightZero ptsQuick" "\<not> usePressure weightOne ptsQuick"
    "\<not> usePressure defaultOptions ptsAges"
    by (simp_all add: usePressure_def weightZero_def weightOne_def defaultOptions_def)
  ultimately show ?thesis
    using ptsQuick_overflow_widths ptsQuick_overflow_widths_one ptsAges_overflow_widths by simp
qed

section \<open>Properties of the Point Simplifier\<close>

subsection \<open>The filter pass and the smoothing pass\<close>

lemma jmul_commute: "jmul a b = jmul b a"
  by (cases a; cases b) (simp_all add: mult.commute)

lemma filterLoop_keepFar:
  "i \<le> length ps \<Longrightarrow>
   filterLoop os ps i acc l = acc @ keepFar (minDistance os) l (drop i ps)"
proof (induction os ps i acc l rule: filterLoop.induct)
  case (1 os ps i acc l)
  show ?case
  proof (cases "i < length ps")
    case False
    then show ?thesis by (subst filterLoop.simps) simp
  next
    case True
    then have d: "drop i ps = ps ! i # drop (i + 1) ps"
      by (simp add: Cons_nth_drop_Suc)
    let ?far = "jgt (hypot (jsub (xc (ps ! i)) (xc l)) (jsub (yc (ps ! i)) (yc l))) (minDistance os)"
    show ?thesis
    proof (cases ?far)
      case far: True
      from "1.IH"(1) [OF True refl far] True
      have "filterLoop os ps (i + 1) (acc @ [ps ! i]) (ps ! i) =
            (acc @ [ps ! i]) @ keepFar (minDistance os) (ps ! i) (drop (i + 1) ps)"
        by simp
      with True far d show ?thesis
        by (subst filterLoop.simps) (simp add: specDistance_def Let_def)
    next
      case near: False
      from "1.IH"(2) [OF True refl near] True
      have "filterLoop os ps (i + 1) acc l = acc @ keepFar (minDistance os) l (drop (i + 1) ps)"
        by simp
      with True near d show ?thesis
        by (subst filterLoop.simps) (simp add: specDistance_def Let_def)
    qed
  qed
qed

lemma filter_stage:
  "ps \<noteq> [] \<Longrightarrow> filterLoop os ps (Suc 0) [ps ! 0] (ps ! 0) = distanceFilter (minDistance os) ps"
  by (cases ps) (simp_all add: filterLoop_keepFar)

lemma smoothLoop_map:
  "smoothLoop os sp i acc = acc @ map (smoothedPoint os sp) [i..<length sp - 1]"
proof (induction os sp i acc rule: smoothLoop.induct)
  case (1 os sp i acc)
  show ?case
  proof (cases "int i < int (length sp) - 1")
    case False
    then show ?thesis by (subst smoothLoop.simps) simp
  next
    case True
    then have "[i..<length sp - 1] = i # [i + 1..<length sp - 1]"
      by (simp add: upt_conv_Cons)
    with "1.IH" [OF True] True show ?thesis
      by (subst smoothLoop.simps) simp
  qed
qed

lemma smoothedPoint_blend:
  "smoothedPoint os sp i =
     (sp ! i)\<lparr>xc := blend (fadeRatio os (length sp) i) (xc (sp ! i)) (xc (sp ! (i - 1))) (xc (sp ! (i + 1))),
              yc := blend (fadeRatio os (length sp) i) (yc (sp ! i)) (yc (sp ! (i - 1))) (yc (sp ! (i + 1)))\<rparr>"
  by (simp add: smoothedPoint_def blend_def fadeRatio_def Let_def jmul_commute)

lemma fadeSmooth_unfold:
  assumes "3 \<le> length f"
  shows "fadeSmooth os f =
           [f ! 0] @ map (smoothedPoint os f) [1..<length f - 1] @ [f ! (length f - 1)]"
proof -
  let ?n = "length f"
  let ?g = "\<lambda>i. if i = 0 \<or> i = ?n - 1 then f ! i
              else (f ! i)
                \<lparr>xc := blend (fadeRatio os ?n i) (xc (f ! i)) (xc (f ! (i - 1))) (xc (f ! (i + 1))),
                 yc := blend (fadeRatio os ?n i) (yc (f ! i)) (yc (f ! (i - 1))) (yc (f ! (i + 1)))\<rparr>"
  obtain m where m: "?n = Suc (Suc m)" and "1 \<le> m"
    using assms by (metis Suc_le_D numeral_3_eq_3 One_nat_def Suc_le_mono)
  have "[0..<Suc (Suc m)] = [0..<Suc m] @ [Suc m]"
    by simp
  also have "[0..<Suc m] = 0 # [1..<Suc m]"
    by (simp add: upt_conv_Cons del: upt_Suc)
  finally have "[0..<?n] = 0 # [1..<Suc m] @ [Suc m]"
    by (simp add: m)
  then have "map ?g [0..<?n] = ?g 0 # map ?g [1..<Suc m] @ [?g (Suc m)]"
    by simp
  moreover have "map ?g [1..<Suc m] = map (smoothedPoint os f) [1..<Suc m]"
    by (rule map_cong) (auto simp: m smoothedPoint_blend)
  ultimately show ?thesis
    by (simp add: fadeSmooth_def m)
qed


lemma simplifyStroke_spec: "simplifyStroke os ps = specSimplify os ps"
proof (cases "length ps < 3")
  case True
  then show ?thesis by (simp add: simplifyStroke_def specSimplify_def)
next
  case False
  then have ne: "ps \<noteq> []" by auto
  let ?f = "distanceFilter (minDistance os) ps"
  show ?thesis
  proof (cases "length ?f < 3")
    case True
    with False ne show ?thesis
      by (simp add: simplifyStroke_def specSimplify_def filter_stage)
  next
    case long: False
    then have "fadeSmooth os ?f =
        [?f ! 0] @ map (smoothedPoint os ?f) [1..<length ?f - 1] @ [?f ! (length ?f - 1)]"
      by (intro fadeSmooth_unfold) simp
    with False long ne show ?thesis
      by (simp add: simplifyStroke_def specSimplify_def filter_stage smoothLoop_map Let_def)
  qed
qed



lemma hypot_axis: "hypot (Num a) (Num 0) = Num \<bar>a\<bar>"
  by simp


lemma ptsBack_once:
  "simplifyStroke defaultOptions ptsBack =
     [mkPoint 0 0 0 0.5, mkPoint 0.765625 0 10 0.5, mkPoint 0 0 20 0.5, mkPoint 5 0 30 0.5]"
  by (simp add: simplifyStroke_def ptsBack_def mkPoint_def defaultOptions_def hypot_axis
      filterLoop.simps smoothLoop.simps smoothedPoint_def jsub_def jgt_def jmin_def Let_def
      del: hypot.simps)

lemma ptsBack_twice:
  "simplifyStroke defaultOptions
     [mkPoint 0 0 0 0.5, mkPoint 0.765625 0 10 0.5, mkPoint 0 0 20 0.5, mkPoint 5 0 30 0.5] =
     [mkPoint 0 0 0 0.5, mkPoint 5 0 30 0.5]"
  by (simp add: simplifyStroke_def mkPoint_def defaultOptions_def hypot_axis
      filterLoop.simps smoothLoop.simps smoothedPoint_def jsub_def jgt_def jmin_def Let_def
      del: hypot.simps)


lemma keepFar_idem: "keepFar d k (keepFar d k ps) = keepFar d k ps"
  by (induction ps arbitrary: k) simp_all

lemma distanceFilter_idem: "distanceFilter d (distanceFilter d ps) = distanceFilter d ps"
  by (cases ps) (simp_all add: keepFar_idem)

lemma keepFar_length: "length (keepFar d k ps) \<le> length ps"
  by (induction ps arbitrary: k) (simp_all add: le_SucI)

lemma distanceFilter_length: "length (distanceFilter d ps) \<le> length ps"
  by (cases ps) (simp_all add: keepFar_length)

lemma keepFar_subset: "set (keepFar d k ps) \<subseteq> set ps"
  by (induction ps arbitrary: k) auto

lemma distanceFilter_subset: "set (distanceFilter d ps) \<subseteq> set ps"
  using keepFar_subset by (cases ps) auto

lemma fadeSmooth_length: "length (fadeSmooth os f) = length f"
  by (simp add: fadeSmooth_def)

lemma specSimplify_length: "length (specSimplify os ps) \<le> length ps"
  by (simp add: specSimplify_def fadeSmooth_length distanceFilter_length)

lemma fadeRatio_zero:
  assumes "smoothingRatio os = Num 0" and "smoothingFadePoints os = Num l" and "l \<noteq> 0"
  shows "fadeRatio os n i = Num 0"
  using assms by (simp add: fadeRatio_def jmin_def)

lemma blend_zero: "blend (Num 0) (Num c) (Num a) (Num b) = Num c"
  by (simp add: blend_def jsub_def)

lemma fadeSmooth_identity:
  assumes "smoothingRatio os = Num 0" and "smoothingFadePoints os = Num l" and "l \<noteq> 0"
    and "list_all finitePosition f"
  shows "fadeSmooth os f = f"
proof -
  have fin: "\<exists>a b. xc (f ! i) = Num a \<and> yc (f ! i) = Num b" if "i < length f" for i
    using assms(4) that by (auto simp: list_all_length finitePosition_def finite_num_iff)
  have "(if i = 0 \<or> i = length f - 1 then f ! i
         else (f ! i)
           \<lparr>xc := blend (fadeRatio os (length f) i) (xc (f ! i)) (xc (f ! (i - 1))) (xc (f ! (i + 1))),
            yc := blend (fadeRatio os (length f) i) (yc (f ! i)) (yc (f ! (i - 1))) (yc (f ! (i + 1)))\<rparr>)
        = f ! i" if "i < length f" for i
  proof (cases "i = 0 \<or> i = length f - 1")
    case True
    then show ?thesis by simp
  next
    case False
    with that have "i - 1 < length f" "i + 1 < length f" by auto
    with fin [OF that] fin [of "i - 1"] fin [of "i + 1"] obtain a b a0 b0 a1 b1 where
      "xc (f ! i) = Num a" "yc (f ! i) = Num b"
      "xc (f ! (i - 1)) = Num a0" "yc (f ! (i - 1)) = Num b0"
      "xc (f ! (i + 1)) = Num a1" "yc (f ! (i + 1)) = Num b1"
      by auto
    moreover have "(f ! i)\<lparr>xc := xc (f ! i), yc := yc (f ! i)\<rparr> = f ! i" by simp
    ultimately show ?thesis
      using False by (simp add: fadeRatio_zero [OF assms(1-3)] blend_zero)
  qed
  then have "map (\<lambda>i. if i = 0 \<or> i = length f - 1 then f ! i
         else (f ! i)
           \<lparr>xc := blend (fadeRatio os (length f) i) (xc (f ! i)) (xc (f ! (i - 1))) (xc (f ! (i + 1))),
            yc := blend (fadeRatio os (length f) i) (yc (f ! i)) (yc (f ! (i - 1))) (yc (f ! (i + 1)))\<rparr>)
        [0..<length f] = map (\<lambda>i. f ! i) [0..<length f]"
    by (intro map_cong) simp_all
  then show ?thesis
    by (simp add: fadeSmooth_def map_nth)
qed

lemma specSimplify_idem:
  assumes "smoothingRatio os = Num 0" and "smoothingFadePoints os = Num l" and "l \<noteq> 0"
    and "list_all finitePosition ps"
  shows "specSimplify os (specSimplify os ps) = specSimplify os ps"
proof -
  let ?f = "distanceFilter (minDistance os) ps"
  have "list_all finitePosition ?f"
    using assms(4) distanceFilter_subset [of "minDistance os" ps] by (auto simp: list_all_iff)
  then have smooth: "fadeSmooth os ?f = ?f"
    by (rule fadeSmooth_identity [OF assms(1-3)])
  show ?thesis
    by (simp add: specSimplify_def smooth distanceFilter_idem)
qed

subsection \<open>The two-stage algorithm\<close>

text \<open>
  C1: for every input sequence \<open>simplifyStroke\<close> equals the two-stage reference
  algorithm \<open>specSimplify\<close>. An input of fewer than 3 points is returned as it is.
  Otherwise the distance filter keeps the first point and keeps a later point exactly
  when its Euclidean distance from the last kept point exceeds \<open>minDistance\<close>; fewer
  than 3 filtered points are returned unsmoothed; otherwise every interior point \<open>i\<close>
  of the \<open>N\<close> filtered points is replaced, in x and in y independently, by
  \<open>(1 - ratio) * current + ratio * midpoint(prev, next)\<close> with
  \<open>ratio = smoothingRatio * min(min(1, i / fadeLength), min(1, (N - 2 - i) / fadeLength))\<close>,
  keeping its time and pressure, and the first and the last filtered point are returned
  unmoved.
\<close>

theorem simplifyStroke_two_stage: "simplifyStroke os ps = specSimplify os ps"
  by (rule simplifyStroke_spec)

subsection \<open>Simplifying twice\<close>

text \<open>
  C7 (amended): \<open>simplifyStroke\<close> is idempotent when the smoothing moves no point:
  with \<open>smoothingRatio = 0\<close>, a non-zero finite \<open>smoothingFadePoints\<close> and finite
  coordinates, applying it to its own output returns that output unchanged. The
  distance filter stage is idempotent for every input: filtering its own output again
  keeps every point. For every input and configuration the second pass returns at most
  as many points as the first.
\<close>

theorem resimplify_without_smoothing:
  "(smoothingRatio os = Num 0 \<and> smoothingFadePoints os = Num l \<and> l \<noteq> 0 \<and>
      list_all finitePosition ps \<longrightarrow>
        simplifyStroke os (simplifyStroke os ps) = simplifyStroke os ps) \<and>
   (ps \<noteq> [] \<longrightarrow>
      (let f = filterLoop os ps 1 [ps ! 0] (ps ! 0) in filterLoop os f 1 [f ! 0] (f ! 0) = f)) \<and>
   length (simplifyStroke os (simplifyStroke os ps)) \<le> length (simplifyStroke os ps)"
proof -
  have "distanceFilter (minDistance os) ps \<noteq> []" if "ps \<noteq> []"
    using that by (cases ps) simp_all
  then show ?thesis
    using specSimplify_idem [of os l ps]
    by (simp add: simplifyStroke_spec specSimplify_length filter_stage distanceFilter_idem Let_def)
qed

theorem resimplify_without_smoothing_witness:
  "simplifyStroke noSmoothing (simplifyStroke noSmoothing ptsBack) = simplifyStroke noSmoothing ptsBack \<and>
   filterLoop noSmoothing (filterLoop noSmoothing ptsBack 1 [ptsBack ! 0] (ptsBack ! 0)) 1
     [filterLoop noSmoothing ptsBack 1 [ptsBack ! 0] (ptsBack ! 0) ! 0]
     (filterLoop noSmoothing ptsBack 1 [ptsBack ! 0] (ptsBack ! 0) ! 0) =
     filterLoop noSmoothing ptsBack 1 [ptsBack ! 0] (ptsBack ! 0) \<and>
   length (simplifyStroke noSmoothing (simplifyStroke noSmoothing ptsBack)) \<le>
     length (simplifyStroke noSmoothing ptsBack)"
proof -
  have "smoothingRatio noSmoothing = Num 0" "smoothingFadePoints noSmoothing = Num 4" "(4::real) \<noteq> 0"
    "list_all finitePosition ptsBack" "ptsBack \<noteq> []"
    by (simp_all add: noSmoothing_def defaultOptions_def ptsBack_def mkPoint_def finitePosition_def)
  with resimplify_without_smoothing [of noSmoothing 4 ptsBack] show ?thesis
    by (simp add: Let_def)
qed

text \<open>
  With the default options the smoothing moves points again on a second pass and can
  bring them within \<open>minDistance\<close> of their neighbours. The stroke \<open>ptsBack\<close> goes
  0.875 to the right, back to its start and on to x = 5: the first pass keeps all four
  points and moves the second to x = 0.765625; the second pass then drops the second and
  the third point.
\<close>

theorem resimplify_not_idempotent_counterexample:
  "simplifyStroke defaultOptions ptsBack =
     [mkPoint 0 0 0 0.5, mkPoint 0.765625 0 10 0.5, mkPoint 0 0 20 0.5, mkPoint 5 0 30 0.5] \<and>
   simplifyStroke defaultOptions (simplifyStroke defaultOptions ptsBack) =
     [mkPoint 0 0 0 0.5, mkPoint 5 0 30 0.5] \<and>
   simplifyStroke defaultOptions (simplifyStroke defaultOptions ptsBack) \<noteq>
     simplifyStroke defaultOptions ptsBack \<and>
   length (simplifyStroke defaultOptions (simplifyStroke defaultOptions ptsBack)) <
     length (simplifyStroke defaultOptions ptsBack)"
  using ptsBack_once ptsBack_twice by simp

section \<open>Properties of the Outline Path Builder\<close>

subsection \<open>The text of a path and the loops of the multi-point branch\<close>

lemma spaced_append: "spaced (a @ b) = spaced a @ spaced b"
  by (simp add: spaced_def)

lemma spaced_Cons: "spaced (c # cs) = lit '' '' @ cmdText c @ spaced cs"
  by (simp add: spaced_def)

lemma spaced_Nil: "spaced [] = []"
  by (simp add: spaced_def)

lemma spaced_map: "spaced (map f xs) = concat (map (\<lambda>x. lit '' '' @ cmdText (f x)) xs)"
  by (simp add: spaced_def comp_def)

lemma quadText_spec: "quadText p1 p2 = lit '' '' @ cmdText (specQuad p1 (specMidpoint p1 p2))"
  by (simp add: quadText_def specQuad_def specMidpoint_def Let_def lit_def)

lemma outlineLoop_map:
  "outlineLoop ps ws i o1 o2 =
     (o1 @ map (\<lambda>k. fst (outlinePair ps ws k)) [i..<length ps],
      o2 @ map (\<lambda>k. snd (outlinePair ps ws k)) [i..<length ps])"
proof (induction ps ws i o1 o2 rule: outlineLoop.induct)
  case (1 ps ws i o1 o2)
  show ?case
  proof (cases "i < length ps")
    case False
    then show ?thesis by (subst outlineLoop.simps) simp
  next
    case True
    then have "[i..<length ps] = i # [i + 1..<length ps]"
      by (simp add: upt_conv_Cons)
    with "1.IH" [OF True] True show ?thesis
      by (subst outlineLoop.simps) simp
  qed
qed

lemma forwardLoop_map:
  "forwardLoop ol i path =
     path @ concat (map (\<lambda>k. quadText (ol ! k) (ol ! (k + 1))) [i..<length ol - 1])"
proof (induction ol i path rule: forwardLoop.induct)
  case (1 ol i path)
  show ?case
  proof (cases "int i < int (length ol) - 1")
    case False
    then show ?thesis by (subst forwardLoop.simps) simp
  next
    case True
    then have "[i..<length ol - 1] = i # [i + 1..<length ol - 1]"
      by (simp add: upt_conv_Cons)
    with "1.IH" [OF True] True show ?thesis
      by (subst forwardLoop.simps) simp
  qed
qed

lemma backwardLoop_map:
  "backwardLoop ol i path =
     path @ concat (map (\<lambda>k. quadText (ol ! (k + 1)) (ol ! k)) (rev [0..<nat (i + 1)]))"
proof (induction ol i path rule: backwardLoop.induct)
  case (1 ol i path)
  show ?case
  proof (cases "i \<ge> 0")
    case False
    then show ?thesis by (subst backwardLoop.simps) simp
  next
    case True
    then have n: "nat (i + 1) = Suc (nat i)" "nat (i - 1 + 1) = nat i" by simp_all
    from "1.IH" [OF True] True show ?thesis
      by (subst backwardLoop.simps) (simp add: n)
  qed
qed

lemma jor_length: "jor (hypot (Num a) (Num b)) (Num 1) = specLength (Num a, Num b)"
  by (simp add: jor_def specLength_def)

lemma outlinePair_spec:
  assumes "2 \<le> length ps" and "length ws = length ps" and "list_all finitePosition ps"
    and "i < length ps"
  shows "outlinePair ps ws i = (specOutline1 ps ws i, specOutline2 ps ws i)"
proof -
  have fin: "\<exists>a b. xc (ps ! k) = Num a \<and> yc (ps ! k) = Num b" if "k < length ps" for k
    using assms(3) that by (auto simp: list_all_length finitePosition_def finite_num_iff)
  have w: "widthAt ws (int i) = ws ! i"
    using assms(2,4) by (simp add: widthAt_def)
  consider "i = 0" | "i \<noteq> 0" "i = length ps - 1" | "i \<noteq> 0" "i \<noteq> length ps - 1" by blast
  then show ?thesis
  proof cases
    case 1
    from assms(1) have "0 < length ps" "1 < length ps" by auto
    from fin [OF this(1)] fin [OF this(2)] obtain a b a1 b1 where
      "xc (ps ! 0) = Num a" "yc (ps ! 0) = Num b" "xc (ps ! 1) = Num a1" "yc (ps ! 1) = Num b1"
      by blast
    with 1 assms(1) w show ?thesis
      by (simp add: outlinePair_def specOutline1_def specOutline2_def specNormal_def
          specTangent_def Let_def jsub_def jor_length del: hypot.simps)
  next
    case 2
    with assms(1) have "i - 1 < length ps" by simp
    from fin [OF assms(4)] fin [OF this] obtain a b a0 b0 where
      "xc (ps ! i) = Num a" "yc (ps ! i) = Num b"
      "xc (ps ! (i - 1)) = Num a0" "yc (ps ! (i - 1)) = Num b0"
      by blast
    with 2 assms(1) w show ?thesis
      by (simp add: outlinePair_def specOutline1_def specOutline2_def specNormal_def
          specTangent_def Let_def jsub_def jor_length del: hypot.simps)
  next
    case 3
    with assms(4) have lt: "i - 1 < length ps" "i + 1 < length ps" "i < length ps - 1" by auto
    from fin [OF lt(1)] fin [OF lt(2)] obtain a0 b0 a1 b1 where
      "xc (ps ! (i - 1)) = Num a0" "yc (ps ! (i - 1)) = Num b0"
      "xc (ps ! (i + 1)) = Num a1" "yc (ps ! (i + 1)) = Num b1"
      by blast
    with 3 lt(3) w show ?thesis
      by (simp add: outlinePair_def specOutline1_def specOutline2_def specNormal_def
          specTangent_def Let_def jsub_def jor_length del: hypot.simps)
  qed
qed


lemma outlines_spec:
  assumes "2 \<le> length ps" and "length ws = length ps" and "list_all finitePosition ps"
  shows "outlineLoop ps ws 0 [] [] =
           (map (specOutline1 ps ws) [0..<length ps], map (specOutline2 ps ws) [0..<length ps])"
proof -
  have "map (\<lambda>k. fst (outlinePair ps ws k)) [0..<length ps] = map (specOutline1 ps ws) [0..<length ps]"
    by (rule map_cong) (simp_all add: outlinePair_spec [OF assms])
  moreover
  have "map (\<lambda>k. snd (outlinePair ps ws k)) [0..<length ps] = map (specOutline2 ps ws) [0..<length ps]"
    by (rule map_cong) (simp_all add: outlinePair_spec [OF assms])
  ultimately show ?thesis
    by (simp add: outlineLoop_map)
qed


lemma ptsLine_path:
  "specPath ptsLine [Num 2, Num 2, Num 2] =
     [MoveAbs (Fixed2 (Num 0)) (Fixed2 (Num 1)),
      ArcAbs (Fixed2 (Num 1)) (Fixed2 (Num 1)) False True (Fixed2 (Num 0)) (Fixed2 (Num (- 1))),
      QuadAbs (Fixed2 (Num 0)) (Fixed2 (Num (- 1))) (Fixed2 (Num 2)) (Fixed2 (Num (- 1))),
      QuadAbs (Fixed2 (Num 4)) (Fixed2 (Num (- 1))) (Fixed2 (Num 6)) (Fixed2 (Num (- 1))),
      LineAbs (Fixed2 (Num 8)) (Fixed2 (Num (- 1))),
      ArcAbs (Fixed2 (Num 1)) (Fixed2 (Num 1)) False True (Fixed2 (Num 8)) (Fixed2 (Num 1)),
      QuadAbs (Fixed2 (Num 8)) (Fixed2 (Num 1)) (Fixed2 (Num 6)) (Fixed2 (Num 1)),
      QuadAbs (Fixed2 (Num 4)) (Fixed2 (Num 1)) (Fixed2 (Num 2)) (Fixed2 (Num 1)),
      ClosePath]"
  by (simp add: specPath_def ptsLine_def mkPoint_def Let_def specOutline1_def specOutline2_def
      specNormal_def specTangent_def specLength_def specMidpoint_def specMove_def specArc_def
      specQuad_def specLine_def jsub_def hypot_axis upt_conv_Cons del: hypot.simps upt_Suc)

lemma dot_text:
  "generateSmoothSvgPathData os [p] ws =
     pathText (specDot (xc p, yc p) (jdiv (jor (optMaxWidth os) (dotSize os)) (Num 2)))"
  by (simp add: generateSmoothSvgPathData_def specDot_def Let_def spaced_def flagText_def lit_def)

lemma fixed2_10: "fixed2 10 = 10"
  by (simp add: fixed2_def)

lemma fixed2_eighth: "fixed2 0.125 = 0.13"
  by (simp add: fixed2_def)

subsection \<open>The outline of two or more points\<close>

text \<open>
  C4: for every sequence of at least 2 points (with finite coordinates) and one width
  per point, \<open>generateSmoothSvgPathData\<close> returns the text of the path
  \<open>specPath\<close>. Each point gets a tangent (forward difference at the first point,
  backward difference at the last, centered difference \<open>(next - prev) / 2\<close> in
  between), whose length is replaced by 1 when it is zero, the normal
  \<open>(-tangentY, tangentX) / length\<close>, and the two outline points at plus and minus
  \<open>normal * width[i] / 2\<close>. The path starts at \<open>outline1[0]\<close>, arcs with radius
  \<open>width[0] / 2\<close> to \<open>outline2[0]\<close>, walks \<open>outline2\<close> forward with quadratic
  curves through the midpoints of consecutive points and reaches its last point by a
  line, arcs with radius \<open>width[last] / 2\<close> to the last point of \<open>outline1\<close>, walks
  \<open>outline1\<close> backward with the same midpoint quadratics, and closes. Every number is
  written with two decimals.
\<close>

theorem outline_path_structure:
  assumes "2 \<le> length ps" and "length ws = length ps" and "list_all finitePosition ps"
  shows "generateSmoothSvgPathData os ps ws = pathText (specPath ps ws)"
proof -
  let ?n = "length ps"
  let ?o1 = "map (specOutline1 ps ws) [0..<?n]"
  let ?o2 = "map (specOutline2 ps ws) [0..<?n]"
  from assms(1) have n: "0 < ?n" "?n - 1 < ?n" "\<not> ?n < 2" by auto
  have w0: "widthAt ws 0 = ws ! 0"
    using assms(1,2) by (auto simp: widthAt_def)
  have wl: "widthAt ws (int (length ws) - 1) = ws ! (?n - 1)"
    using assms(1,2) by (auto simp: widthAt_def nat_diff_distrib)
  have first: "?o1 ! 0 = specOutline1 ps ws 0" "?o2 ! 0 = specOutline2 ps ws 0"
    using n(1) by simp_all
  have lasts: "?o1 ! (?n - 1) = specOutline1 ps ws (?n - 1)"
    "?o2 ! (?n - 1) = specOutline2 ps ws (?n - 1)"
    using n(2) by simp_all
  have fwd: "concat (map (\<lambda>k. quadText (?o2 ! k) (?o2 ! (k + 1))) [0..<?n - 1]) =
      spaced (map (\<lambda>i. specQuad (specOutline2 ps ws i)
                 (specMidpoint (specOutline2 ps ws i) (specOutline2 ps ws (i + 1)))) [0..<?n - 1])"
    unfolding spaced_map by (rule arg_cong [where f = concat], rule map_cong) (simp_all add: quadText_spec)
  have bwd: "concat (map (\<lambda>k. quadText (?o1 ! (k + 1)) (?o1 ! k)) (rev [0..<nat (int ?n - 2 + 1)])) =
      spaced (map (\<lambda>i. specQuad (specOutline1 ps ws (i + 1))
                 (specMidpoint (specOutline1 ps ws (i + 1)) (specOutline1 ps ws i))) (rev [0..<?n - 1]))"
  proof -
    have "nat (int ?n - 2 + 1) = ?n - 1" using assms(1) by simp
    then show ?thesis
      unfolding spaced_map by (simp only:, intro arg_cong [where f = concat] map_cong)
        (simp_all add: quadText_spec)
  qed
  have code: "generateSmoothSvgPathData os ps ws =
      lit ''M'' @ [ToFixed2 (fst (?o1 ! 0))] @ lit '','' @ [ToFixed2 (snd (?o1 ! 0))] @
      lit '' A'' @ [ToFixed2 (jdiv (ws ! 0) (Num 2))] @ lit '','' @ [ToFixed2 (jdiv (ws ! 0) (Num 2))] @
      lit '' 0 0 1 '' @ [ToFixed2 (fst (?o2 ! 0))] @ lit '','' @ [ToFixed2 (snd (?o2 ! 0))] @
      concat (map (\<lambda>k. quadText (?o2 ! k) (?o2 ! (k + 1))) [0..<?n - 1]) @
      lit '' L'' @ [ToFixed2 (fst (?o2 ! (?n - 1)))] @ lit '','' @ [ToFixed2 (snd (?o2 ! (?n - 1)))] @
      lit '' A'' @ [ToFixed2 (jdiv (ws ! (?n - 1)) (Num 2))] @ lit '','' @
      [ToFixed2 (jdiv (ws ! (?n - 1)) (Num 2))] @
      lit '' 0 0 1 '' @ [ToFixed2 (fst (?o1 ! (?n - 1)))] @ lit '','' @ [ToFixed2 (snd (?o1 ! (?n - 1)))] @
      concat (map (\<lambda>k. quadText (?o1 ! (k + 1)) (?o1 ! k)) (rev [0..<nat (int ?n - 2 + 1)])) @
      lit '' Z''"
    unfolding generateSmoothSvgPathData_def outlines_spec [OF assms]
    using n(3) by (simp add: Let_def forwardLoop_map backwardLoop_map w0 wl del: nth_map upt_Suc)
  have spec: "pathText (specPath ps ws) =
      cmdText (specMove (specOutline1 ps ws 0)) @
      lit '' '' @ cmdText (specArc (jdiv (ws ! 0) (Num 2)) (specOutline2 ps ws 0)) @
      spaced (map (\<lambda>i. specQuad (specOutline2 ps ws i)
                 (specMidpoint (specOutline2 ps ws i) (specOutline2 ps ws (i + 1)))) [0..<?n - 1]) @
      lit '' '' @ cmdText (specLine (specOutline2 ps ws (?n - 1))) @
      lit '' '' @ cmdText (specArc (jdiv (ws ! (?n - 1)) (Num 2)) (specOutline1 ps ws (?n - 1))) @
      spaced (map (\<lambda>i. specQuad (specOutline1 ps ws (i + 1))
                 (specMidpoint (specOutline1 ps ws (i + 1)) (specOutline1 ps ws i))) (rev [0..<?n - 1])) @
      lit '' '' @ cmdText ClosePath"
    by (simp add: specPath_def Let_def spaced_append spaced_Cons spaced_Nil del: upt_Suc)
  show ?thesis
    unfolding code spec fwd bwd first lasts
    by (simp add: specMove_def specArc_def specLine_def flagText_def lit_def)
qed

theorem outline_path_structure_witness:
  "generateSmoothSvgPathData defaultOptions ptsLine [Num 2, Num 2, Num 2] =
     pathText
       [MoveAbs (Fixed2 (Num 0)) (Fixed2 (Num 1)),
        ArcAbs (Fixed2 (Num 1)) (Fixed2 (Num 1)) False True (Fixed2 (Num 0)) (Fixed2 (Num (- 1))),
        QuadAbs (Fixed2 (Num 0)) (Fixed2 (Num (- 1))) (Fixed2 (Num 2)) (Fixed2 (Num (- 1))),
        QuadAbs (Fixed2 (Num 4)) (Fixed2 (Num (- 1))) (Fixed2 (Num 6)) (Fixed2 (Num (- 1))),
        LineAbs (Fixed2 (Num 8)) (Fixed2 (Num (- 1))),
        ArcAbs (Fixed2 (Num 1)) (Fixed2 (Num 1)) False True (Fixed2 (Num 8)) (Fixed2 (Num 1)),
        QuadAbs (Fixed2 (Num 8)) (Fixed2 (Num 1)) (Fixed2 (Num 6)) (Fixed2 (Num 1)),
        QuadAbs (Fixed2 (Num 4)) (Fixed2 (Num 1)) (Fixed2 (Num 2)) (Fixed2 (Num 1)),
        ClosePath]"
proof -
  have "2 \<le> length ptsLine" "length [Num 2, Num 2, Num 2] = length ptsLine"
    "list_all finitePosition ptsLine"
    by (simp_all add: ptsLine_def mkPoint_def finitePosition_def)
  from outline_path_structure [OF this, of defaultOptions] show ?thesis
    by (simp only: ptsLine_path)
qed

subsection \<open>The dot of a single point\<close>

lemma dot_arcs:
  assumes "0 < r"
  shows "arcsOf (specDot (Num a, Num b) (Num r)) =
           Some [\<lparr>arcFrom = (fixed2 a - r, fixed2 b), arcTo = (fixed2 a + r, fixed2 b),
                   arcRadius = r, arcLarge = True, arcSweep = False\<rparr>,
                 \<lparr>arcFrom = (fixed2 a + r, fixed2 b), arcTo = (fixed2 a - r, fixed2 b),
                   arcRadius = r, arcLarge = True, arcSweep = False\<rparr>]"
  using assms by (simp add: specDot_def)

lemma half_circle_forth:
  assumes "0 < r"
  shows "onArc \<lparr>arcFrom = (cx - r, cy), arcTo = (cx + r, cy), arcRadius = r,
                arcLarge = l, arcSweep = False\<rparr> P \<longleftrightarrow>
         (fst P - cx)\<^sup>2 + (snd P - cy)\<^sup>2 = r\<^sup>2 \<and> cy \<le> snd P"
proof -
  let ?A = "\<lparr>arcFrom = (cx - r, cy), arcTo = (cx + r, cy), arcRadius = r,
              arcLarge = l, arcSweep = False\<rparr>"
  have h: "arcHalf ?A = (- r, 0)" by (simp add: arcHalf_def)
  have q: "arcRadiusSq ?A = r\<^sup>2" by (simp add: arcRadiusSq_def h)
  have c: "arcCentre ?A = (cx, cy)" by (simp add: arcCentre_def h q Let_def)
  have s: "chordSide ?A P = 2 * r * (snd P - cy)" by (simp add: chordSide_def)
  have "0 \<le> 2 * r * (snd P - cy) \<longleftrightarrow> cy \<le> snd P"
    using assms by (simp add: zero_le_mult_iff)
  then show ?thesis
    using assms by (simp add: onArc_def q c s)
qed

lemma half_circle_back:
  assumes "0 < r"
  shows "onArc \<lparr>arcFrom = (cx + r, cy), arcTo = (cx - r, cy), arcRadius = r,
                arcLarge = l, arcSweep = False\<rparr> P \<longleftrightarrow>
         (fst P - cx)\<^sup>2 + (snd P - cy)\<^sup>2 = r\<^sup>2 \<and> snd P \<le> cy"
proof -
  let ?A = "\<lparr>arcFrom = (cx + r, cy), arcTo = (cx - r, cy), arcRadius = r,
              arcLarge = l, arcSweep = False\<rparr>"
  have h: "arcHalf ?A = (r, 0)" by (simp add: arcHalf_def)
  have q: "arcRadiusSq ?A = r\<^sup>2" by (simp add: arcRadiusSq_def h)
  have c: "arcCentre ?A = (cx, cy)" by (simp add: arcCentre_def h q Let_def)
  have s: "chordSide ?A P = - (2 * r * (snd P - cy))" by (simp add: chordSide_def)
  have "0 \<le> - (2 * r * (snd P - cy)) \<longleftrightarrow> snd P \<le> cy"
    using assms by (simp add: mult_le_0_iff)
  then show ?thesis
    using assms by (simp add: onArc_def q c s)
qed

lemma dot_onPath:
  assumes "0 < r"
  shows "onPath (specDot (Num a, Num b) (Num r)) P \<longleftrightarrow>
         (fst P - fixed2 a)\<^sup>2 + (snd P - fixed2 b)\<^sup>2 = r\<^sup>2"
  using half_circle_forth [OF assms, of "fixed2 a" "fixed2 b" True P]
    half_circle_back [OF assms, of "fixed2 a" "fixed2 b" True P]
  by (auto simp: onPath_def dot_arcs [OF assms])

lemma circle_boundingBox:
  assumes "0 < r"
  shows "boundingBox {P. (fst P - cx)\<^sup>2 + (snd P - cy)\<^sup>2 = r\<^sup>2}
           (cx - r) (cx + r) (cy - r) (cy + r)"
proof -
  have inside: "cx - r \<le> x \<and> x \<le> cx + r \<and> cy - r \<le> y \<and> y \<le> cy + r"
    if "(x - cx)\<^sup>2 + (y - cy)\<^sup>2 = r\<^sup>2" for x y
  proof -
    have "(x - cx)\<^sup>2 \<le> r\<^sup>2" "(y - cy)\<^sup>2 \<le> r\<^sup>2"
      using that zero_le_power2 [of "x - cx"] zero_le_power2 [of "y - cy"] by linarith+
    then have "\<bar>x - cx\<bar> \<le> r" "\<bar>y - cy\<bar> \<le> r"
      using assms by (simp_all add: abs_le_square_iff [symmetric])
    then show ?thesis by linarith
  qed
  let ?S = "{P. (fst P - cx)\<^sup>2 + (snd P - cy)\<^sup>2 = r\<^sup>2}"
  have all: "\<forall>P \<in> ?S. cx - r \<le> fst P \<and> fst P \<le> cx + r \<and> cy - r \<le> snd P \<and> snd P \<le> cy + r"
    using inside by simp
  have "(cx - r, cy) \<in> ?S" by simp
  then have w: "\<exists>P \<in> ?S. fst P = cx - r" by (rule bexI [rotated]) simp
  have "(cx + r, cy) \<in> ?S" by simp
  then have e: "\<exists>P \<in> ?S. fst P = cx + r" by (rule bexI [rotated]) simp
  have "(cx, cy - r) \<in> ?S" by simp
  then have n: "\<exists>P \<in> ?S. snd P = cy - r" by (rule bexI [rotated]) simp
  have "(cx, cy + r) \<in> ?S" by simp
  then have s: "\<exists>P \<in> ?S. snd P = cy + r" by (rule bexI [rotated]) simp
  from all w e n s show ?thesis
    unfolding boundingBox_def by (intro conjI)
qed

lemma dot_boundingBox:
  assumes "0 < r"
  shows "boundingBox {P. onPath (specDot (Num a, Num b) (Num r)) P}
           (fixed2 a - r) (fixed2 a + r) (fixed2 b - r) (fixed2 b + r)"
  using circle_boundingBox [OF assms, of "fixed2 a" "fixed2 b"]
  by (simp add: dot_onPath [OF assms])

text \<open>
  The reading depends on the flags: with the sweep flag of the second arc set, both arcs
  are the same half circle and the top of the circle is not drawn.
\<close>

lemma second_sweep_flag_matters:
  "\<not> onPath [MoveAbs (Fixed2 (Num 10)) (Fixed2 (Num 10)), MoveRel (MinusPlain (Num 1)) Zero,
              ArcRel (Plain (Num 1)) (Plain (Num 1)) True False (Plain (Num 2)) Zero,
              ArcRel (Plain (Num 1)) (Plain (Num 1)) True True (MinusPlain (Num 2)) Zero]
        (10, 9)"
  by (simp add: onPath_def onArc_def chordSide_def fixed2_def)

text \<open>
  C5 (amended): for every single-point input, whatever the widths, the path is the text
  of \<open>specDot\<close> for the point and the radius
  \<open>r = (options.maxWidth || options.dotSize) / 2\<close>, which is taken from the current
  options and not from \<open>width[0]\<close>. For finite coordinates and a positive radius
  the path has two arcs of radius \<open>r\<close>, without the sweep flag, from
  \<open>(cx - r, cy)\<close> to \<open>(cx + r, cy)\<close> and back, where \<open>(cx, cy)\<close> is the point as
  printed with two decimals; the points it draws are exactly those of the circle of
  radius \<open>r\<close> around \<open>(cx, cy)\<close>, and their bounding box is exactly
  \<open>[cx - r, cx + r] \<times> [cy - r, cy + r]\<close>. Halving and doubling the radius are exact
  on doubles short of underflow and overflow.
\<close>

theorem single_point_full_circle:
  "generateSmoothSvgPathData os [p] ws =
     pathText (specDot (xc p, yc p) (jdiv (jor (optMaxWidth os) (dotSize os)) (Num 2))) \<and>
   (xc p = Num a \<and> yc p = Num b \<and>
    jdiv (jor (optMaxWidth os) (dotSize os)) (Num 2) = Num r \<and> 0 < r \<longrightarrow>
      generateSmoothSvgPathData os [p] ws = pathText (specDot (Num a, Num b) (Num r)) \<and>
      arcsOf (specDot (Num a, Num b) (Num r)) =
        Some [\<lparr>arcFrom = (fixed2 a - r, fixed2 b), arcTo = (fixed2 a + r, fixed2 b),
                arcRadius = r, arcLarge = True, arcSweep = False\<rparr>,
              \<lparr>arcFrom = (fixed2 a + r, fixed2 b), arcTo = (fixed2 a - r, fixed2 b),
                arcRadius = r, arcLarge = True, arcSweep = False\<rparr>] \<and>
      (\<forall>P. onPath (specDot (Num a, Num b) (Num r)) P \<longleftrightarrow>
           (fst P - fixed2 a)\<^sup>2 + (snd P - fixed2 b)\<^sup>2 = r\<^sup>2) \<and>
      boundingBox {P. onPath (specDot (Num a, Num b) (Num r)) P}
        (fixed2 a - r) (fixed2 a + r) (fixed2 b - r) (fixed2 b + r))"
proof -
  have "generateSmoothSvgPathData os [p] ws = pathText (specDot (Num a, Num b) (Num r))"
    if "xc p = Num a" "yc p = Num b" "jdiv (jor (optMaxWidth os) (dotSize os)) (Num 2) = Num r"
    using that by (simp add: dot_text)
  then show ?thesis
    using dot_text [of os p ws] dot_arcs [of r a b] dot_onPath [of r a b]
      dot_boundingBox [of r a b]
    by blast
qed

theorem single_point_full_circle_witness:
  "generateSmoothSvgPathData defaultOptions [ptDot] [Num 2.5] =
     pathText (specDot (Num 10, Num 10) (Num 1.25)) \<and>
   onPath (specDot (Num 10, Num 10) (Num 1.25)) (10, 11.25) \<and>
   onPath (specDot (Num 10, Num 10) (Num 1.25)) (10, 8.75) \<and>
   \<not> onPath (specDot (Num 10, Num 10) (Num 1.25)) (10, 10) \<and>
   boundingBox {P. onPath (specDot (Num 10, Num 10) (Num 1.25)) P} 8.75 11.25 8.75 11.25"
proof -
  have h: "xc ptDot = Num 10 \<and> yc ptDot = Num 10 \<and>
    jdiv (jor (optMaxWidth defaultOptions) (dotSize defaultOptions)) (Num 2) = Num 1.25 \<and>
    (0::real) < 1.25"
    by (simp add: ptDot_def mkPoint_def defaultOptions_def jor_def)
  note t = single_point_full_circle [of defaultOptions ptDot "[Num 2.5]" 10 10 "1.25"]
  from t h have str: "generateSmoothSvgPathData defaultOptions [ptDot] [Num 2.5] =
      pathText (specDot (Num 10, Num 10) (Num 1.25))"
    by blast
  from t h have on: "onPath (specDot (Num 10, Num 10) (Num 1.25)) P \<longleftrightarrow>
      (fst P - fixed2 10)\<^sup>2 + (snd P - fixed2 10)\<^sup>2 = (1.25::real)\<^sup>2" for P
    by blast
  from t h have "boundingBox {P. onPath (specDot (Num 10, Num 10) (Num 1.25)) P}
      (fixed2 10 - 1.25) (fixed2 10 + 1.25) (fixed2 10 - 1.25) (fixed2 10 + 1.25)"
    by blast
  then have box: "boundingBox {P. onPath (specDot (Num 10, Num 10) (Num 1.25)) P}
      8.75 11.25 8.75 11.25"
    by (simp add: fixed2_10)
  have "onPath (specDot (Num 10, Num 10) (Num 1.25)) (10, 11.25)"
    "onPath (specDot (Num 10, Num 10) (Num 1.25)) (10, 8.75)"
    "\<not> onPath (specDot (Num 10, Num 10) (Num 1.25)) (10, 10)"
    unfolding on by (simp_all add: fixed2_10 power2_eq_square)
  with str box show ?thesis by simp
qed

text \<open>
  The radius is not \<open>width[0] / 2\<close>: in pressure mode the point \<open>ptDot\<close> of
  pressure 0.5 has width 1.5, the arcs are written with radius 1.25, not 0.75, and the
  path draws the point \<open>(11.25, 10)\<close>, outside the box of radius 0.75 around
  \<open>(10, 10)\<close>. The centre is the printed point, not the point: for x = 0.125 the path
  is centred at 0.13 and draws the point \<open>(1.38, 10)\<close>, to the right of
  \<open>x + r = 1.375\<close>.
\<close>

theorem single_point_radius_counterexample:
  "calculateWidths pressureOptions [ptDot] (Num 0.5) (Num 2.5) = [Num 1.5] \<and>
   generateSmoothSvgPathData pressureOptions [ptDot] [Num 1.5] =
     pathText (specDot (Num 10, Num 10) (Num 1.25)) \<and>
   generateSmoothSvgPathData pressureOptions [ptDot] [Num 1.5] \<noteq>
     pathText (specDot (Num 10, Num 10) (jdiv (Num 1.5) (Num 2))) \<and>
   onPath (specDot (Num 10, Num 10) (Num 1.25)) (11.25, 10) \<and> (10 + 0.75 :: real) < 11.25 \<and>
   generateSmoothSvgPathData defaultOptions [ptEighth] [Num 2.5] =
     pathText (specDot (Num 0.125, Num 10) (Num 1.25)) \<and>
   onPath (specDot (Num 0.125, Num 10) (Num 1.25)) (1.38, 10) \<and> (0.125 + 1.25 :: real) < 1.38"
proof -
  have "calculateWidths pressureOptions [ptDot] (Num 0.5) (Num 2.5) = [Num 1.5]"
    by (simp add: calculateWidths_def usePressure_def pressureOptions_def defaultOptions_def
        ptDot_def mkPoint_def pressureNum_def pressureWidth_def widthsLoop.simps jsub_def jgt_def)
  moreover have d: "generateSmoothSvgPathData pressureOptions [ptDot] [Num 1.5] =
     pathText (specDot (Num 10, Num 10) (Num 1.25))"
    by (simp add: dot_text ptDot_def mkPoint_def pressureOptions_def defaultOptions_def jor_def)
  moreover have "pathText (specDot (Num 10, Num 10) (Num 1.25)) \<noteq>
     pathText (specDot (Num 10, Num 10) (jdiv (Num 1.5) (Num 2)))"
    by (simp add: specDot_def spaced_def lit_def)
  moreover have "generateSmoothSvgPathData defaultOptions [ptEighth] [Num 2.5] =
     pathText (specDot (Num 0.125, Num 10) (Num 1.25))"
    by (simp add: dot_text ptEighth_def mkPoint_def defaultOptions_def jor_def)
  moreover have "onPath (specDot (Num 10, Num 10) (Num 1.25)) (11.25, 10)"
    using dot_onPath [of "1.25" 10 10 "(11.25, 10)"] fixed2_10
    by (simp add: power2_eq_square)
  moreover have "onPath (specDot (Num 0.125, Num 10) (Num 1.25)) (1.38, 10)"
  proof -
    have "onPath (specDot (Num 0.125, Num 10) (Num 1.25)) (1.38, 10) \<longleftrightarrow>
        (1.38 - 0.13)\<^sup>2 + (10 - 10)\<^sup>2 = (1.25::real)\<^sup>2"
      using dot_onPath [of "1.25" "0.125" 10 "(1.38, 10)"]
      by (simp only: fixed2_eighth fixed2_10 fst_conv snd_conv) simp
    then show ?thesis by (simp add: power2_eq_square)
  qed
  ultimately show ?thesis by simp
qed

section \<open>The earlier revision computes the same geometry\<close>

text \<open>
  The widths of the earlier revision are those of revision 1.1 in velocity mode, and its
  simplified strokes have the positions and times of revision 1.1; only the pressure of
  the smoothed interior points is missing.
\<close>

lemma widthsLoop0_velocity:
  "widthsLoop0 os ps minW maxW i ws lv = widthsLoop os ps minW maxW False i ws lv"
proof (induction os ps minW maxW i ws lv rule: widthsLoop0.induct)
  case (1 os ps minW maxW i ws lv)
  show ?case
  proof (cases "i < length ps")
    case False
    then show ?thesis
      by (subst widthsLoop0.simps, subst widthsLoop.simps) simp
  next
    case True
    with "1.IH" [OF True refl refl] show ?thesis
      by (subst widthsLoop0.simps, subst widthsLoop.simps) (simp add: Let_def)
  qed
qed

lemma calculateWidths0_velocity:
  "\<not> usePressure os ps \<Longrightarrow> calculateWidths0 os ps minW maxW = calculateWidths os ps minW maxW"
  by (simp add: calculateWidths0_def calculateWidths_def widthsLoop0_velocity)

lemma calculateWidths0_spec:
  "calculateWidths0 os ps minW maxW = specVelocityWidths deltaNotPositive os ps minW maxW"
  by (simp add: calculateWidths0_def widthsLoop0_velocity widthsLoop_velocity carried_def
      specVelocityWidths_def)

lemma smoothLoop0_map:
  "smoothLoop0 os sp i acc = acc @ map (smoothedPoint0 os sp) [i..<length sp - 1]"
proof (induction os sp i acc rule: smoothLoop0.induct)
  case (1 os sp i acc)
  show ?case
  proof (cases "int i < int (length sp) - 1")
    case False
    then show ?thesis by (subst smoothLoop0.simps) simp
  next
    case True
    then have "[i..<length sp - 1] = i # [i + 1..<length sp - 1]"
      by (simp add: upt_conv_Cons)
    with "1.IH" [OF True] True show ?thesis
      by (subst smoothLoop0.simps) simp
  qed
qed

lemma smoothedPoint0_placed: "placed (smoothedPoint0 os sp i) = placed (smoothedPoint os sp i)"
  by (simp add: placed_def smoothedPoint0_def smoothedPoint_def Let_def)

lemma simplifyStroke0_placed:
  "map placed (simplifyStroke0 os ps) = map placed (simplifyStroke os ps)"
  by (simp add: simplifyStroke0_def simplifyStroke_def Let_def smoothLoop0_map smoothLoop_map
      smoothedPoint0_placed)

lemma simplifyStroke0_short:
  "length (filterLoop os ps 1 [ps ! 0] (ps ! 0)) < 3 \<Longrightarrow> simplifyStroke0 os ps = simplifyStroke os ps"
  by (simp add: simplifyStroke0_def simplifyStroke_def Let_def)

end
